theory Spec2Isabelle
  imports Main "HOL-Library.Sublist" "HOL-Library.AList"
begin

section \<open>Python values used by parse_utils.py\<close>

text \<open>
  Strings are lists of 8-bit characters, so the model covers text whose code points are
  below 256. Exceptions are values of \<open>error\<close>; every one of them is a subclass of
  Python's \<open>Exception\<close>, so an \<open>except Exception\<close> clause catches each of them.
\<close>

datatype error =
    KeyError
  | IndexError
  | ValueError
  | TypeError
  | LookupError
  | NameError string
  | ParseError

text \<open>\<open>str.isspace\<close> on the code points below 256, and \<open>str.strip()\<close>.\<close>

definition isspace :: "char \<Rightarrow> bool" where
  "isspace c = ((of_char c :: nat) \<in> {9, 10, 11, 12, 13, 28, 29, 30, 31, 32, 133, 160})"

definition strip :: "string \<Rightarrow> string" where
  "strip s = rev (dropWhile isspace (rev (dropWhile isspace s)))"

text \<open>\<open>s.split(sep)\<close> for a one-character separator: every occurrence splits.\<close>

fun split :: "char \<Rightarrow> string \<Rightarrow> string list" where
  "split sep [] = [[]]"
| "split sep (c # cs) =
     (if c = sep then [] # split sep cs
      else (case split sep cs of [] \<Rightarrow> [[c]] | p # ps \<Rightarrow> (c # p) # ps))"

text \<open>
  \<open>s.replace(old, new, count)\<close>, with \<open>None\<close> for the call without a count. Both call
  sites pass a non-empty literal for \<open>old\<close>; for an empty \<open>old\<close> the model returns the
  string unchanged and is not meant to be used.
\<close>

fun replace :: "string \<Rightarrow> string \<Rightarrow> nat option \<Rightarrow> string \<Rightarrow> string" where
  "replace old new count [] = []"
| "replace old new count (c # cs) =
     (if count = Some 0 \<or> old = [] then c # cs
      else if prefix old (c # cs)
        then new @ replace old new (map_option (\<lambda>n. n - 1) count) (drop (length old) (c # cs))
        else c # replace old new count cs)"

text \<open>\<open>sep.join(parts)\<close>.\<close>

fun join :: "string \<Rightarrow> string list \<Rightarrow> string" where
  "join sep [] = []"
| "join sep [p] = p"
| "join sep (p # q # ps) = p @ sep @ join sep (q # ps)"

text \<open>
  \<open>int(s)\<close> on a string: surrounding whitespace is dropped, one sign is allowed, and the
  digits may be grouped by single underscores. Anything else raises ValueError. The
  whitespace that \<open>int\<close> drops is narrower than that of \<open>strip\<close>: of the code points
  below 128 only tab, line feed, vertical tab, form feed, carriage return and space,
  so the separators U+001C to U+001F make the text invalid.
\<close>

definition int_space :: "char \<Rightarrow> bool" where
  "int_space c = ((of_char c :: nat) \<in> {9, 10, 11, 12, 13, 32, 133, 160})"

definition is_digit :: "char \<Rightarrow> bool" where
  "is_digit c = (48 \<le> (of_char c :: nat) \<and> (of_char c :: nat) \<le> 57)"

fun py_digits :: "bool \<Rightarrow> nat \<Rightarrow> string \<Rightarrow> nat option" where
  "py_digits prev acc [] = (if prev then Some acc else None)"
| "py_digits prev acc (c # cs) =
     (if is_digit c then py_digits True (10 * acc + (of_char c - 48)) cs
      else if c = CHR ''_'' \<and> prev then py_digits False acc cs
      else None)"

definition py_int :: "string \<Rightarrow> error + int" where
  "py_int s =
     (case rev (dropWhile int_space (rev (dropWhile int_space s))) of
        [] \<Rightarrow> Inl ValueError
      | c # cs \<Rightarrow>
          if c = CHR ''-'' then
            (case py_digits False 0 cs of None \<Rightarrow> Inl ValueError | Some n \<Rightarrow> Inr (- int n))
          else if c = CHR ''+'' then
            (case py_digits False 0 cs of None \<Rightarrow> Inl ValueError | Some n \<Rightarrow> Inr (int n))
          else
            (case py_digits False 0 (c # cs) of None \<Rightarrow> Inl ValueError | Some n \<Rightarrow> Inr (int n)))"

section \<open>The document tree (bs4)\<close>

text \<open>
  A tree of named elements with attributes and children, and string leaves. A leaf is
  either plain text (\<open>NavigableString\<close>; a CDATA section counts as plain text) or a
  string of another class (\<open>Comment\<close>: a comment, the content of a script or style
  element, a declaration), which \<open>get_text\<close> leaves out. The operations are the ones the
  source calls: \<open>find_all\<close> (all descendants in document order that match), \<open>get\<close> with
  a default, \<open>get_text\<close> with \<open>strip=True\<close>, and \<open>decompose\<close>.
\<close>

datatype node =
    Tag (tag_name: string) (attrs: "(string \<times> string) list") (contents: "node list")
  | NavigableString string
  | Comment string

fun descendants :: "node \<Rightarrow> node list" where
  "descendants (Tag n a cs) = concat (map (\<lambda>c. c # descendants c) cs)"
| "descendants (NavigableString s) = []"
| "descendants (Comment s) = []"

definition find_all :: "(node \<Rightarrow> bool) \<Rightarrow> node \<Rightarrow> node list" where
  "find_all p t = filter p (descendants t)"

text \<open>\<open>find_all("tr")\<close>: the elements with exactly that name.\<close>

fun named :: "string \<Rightarrow> node \<Rightarrow> bool" where
  "named n (Tag m a cs) = (m = n)"
| "named n (NavigableString s) = False"
| "named n (Comment s) = False"

text \<open>\<open>int(td.get(key, 1))\<close>: the default 1 is already an integer.\<close>

definition int_attr :: "node \<Rightarrow> string \<Rightarrow> error + int" where
  "int_attr td key = (case map_of (attrs td) key of None \<Rightarrow> Inr 1 | Some s \<Rightarrow> py_int s)"

text \<open>
  \<open>get_text(sep, strip=True)\<close>: every plain text leaf below the element is stripped,
  the empty ones are dropped, and the rest are joined with the separator.
\<close>

fun strings :: "node \<Rightarrow> string list" where
  "strings (Tag n a cs) = concat (map strings cs)"
| "strings (NavigableString s) = [s]"
| "strings (Comment s) = []"

definition get_text :: "string \<Rightarrow> node \<Rightarrow> string" where
  "get_text sep t = join sep (filter (\<lambda>s. s \<noteq> []) (map strip (strings t)))"

section \<open>Sequencing of operations that may raise\<close>

definition bind :: "error + 'a \<Rightarrow> ('a \<Rightarrow> error + 'b) \<Rightarrow> error + 'b" where
  "bind m f = (case m of Inl e \<Rightarrow> Inl e | Inr x \<Rightarrow> f x)"

text \<open>A \<open>for\<close> loop whose body may raise: the first exception ends the loop.\<close>

fun for_each :: "('a \<Rightarrow> 's \<Rightarrow> error + 's) \<Rightarrow> 'a list \<Rightarrow> 's \<Rightarrow> error + 's" where
  "for_each body [] s = Inr s"
| "for_each body (x # xs) s = bind (body x s) (for_each body xs)"

section \<open>TableRowHelper\<close>

text \<open>
  \<open>td_cache\<close> is a dict from column index to \<open>(remaining, value)\<close>; it is kept as an
  association list in insertion order.
\<close>

type_synonym td_cache = "(nat \<times> (int \<times> node)) list"

text \<open>
  Lines 27-32: every entry whose remaining count is 1 is deleted, every other entry has
  its count decreased by one. Each iteration touches only its own key.
\<close>

fun expire :: "td_cache \<Rightarrow> td_cache" where
  "expire [] = []"
| "expire ((k, (remaining, v)) # es) =
     (if remaining = 1 then expire es else (k, (remaining - 1, v)) # expire es)"

text \<open>Lines 39-40: skip the columns that are still in the cache.\<close>

function skip_cols :: "td_cache \<Rightarrow> nat \<Rightarrow> nat" where
  "skip_cols cache col_idx =
     (if col_idx \<in> set (map fst cache) then skip_cols cache (col_idx + 1) else col_idx)"
  by pat_completeness auto
termination
proof (relation "measure (\<lambda>(cache, i). length (filter (\<lambda>k. i \<le> k) (map fst cache)))")
  fix cache :: td_cache and col_idx :: nat
  assume mem: "col_idx \<in> set (map fst cache)"
  have weak: "length (filter (\<lambda>k. Suc col_idx \<le> k) ks) \<le> length (filter (\<lambda>k. col_idx \<le> k) ks)"
    for ks :: "nat list"
    by (induction ks) auto
  have strict: "col_idx \<in> set ks \<Longrightarrow>
      length (filter (\<lambda>k. Suc col_idx \<le> k) ks) < length (filter (\<lambda>k. col_idx \<le> k) ks)"
    for ks :: "nat list"
    by (induction ks) (auto simp: weak less_Suc_eq_le)
  from strict [OF mem]
  show "((cache, col_idx + 1), (cache, col_idx))
      \<in> measure (\<lambda>(cache, i). length (filter (\<lambda>k. i \<le> k) (map fst cache)))"
    by simp
qed simp

declare skip_cols.simps [simp del]

text \<open>Lines 42-44: the cell is written to \<open>count\<close> consecutive columns.\<close>

fun fill_cols :: "nat \<Rightarrow> int \<times> node \<Rightarrow> td_cache \<times> nat \<Rightarrow> td_cache \<times> nat" where
  "fill_cols 0 e (cache, col_idx) = (cache, col_idx)"
| "fill_cols (Suc n) e (cache, col_idx) =
     fill_cols n e (AList.update col_idx e cache, col_idx + 1)"

text \<open>Lines 36-44: the loop over the cells of the row.\<close>

fun insert_tds :: "node list \<Rightarrow> td_cache \<times> nat \<Rightarrow> error + td_cache \<times> nat" where
  "insert_tds [] s = Inr s"
| "insert_tds (td # tds) (cache, col_idx) =
     (case int_attr td ''rowspan'' of
        Inl e \<Rightarrow> Inl e
      | Inr rowspan \<Rightarrow>
          (case int_attr td ''colspan'' of
             Inl e \<Rightarrow> Inl e
           | Inr colspan \<Rightarrow>
               insert_tds tds
                 (fill_cols (nat colspan) (rowspan, td) (cache, skip_cols cache col_idx))))"

definition set_tds :: "td_cache \<Rightarrow> node list \<Rightarrow> error + td_cache" where
  "set_tds td_cache tds =
     (case insert_tds tds (expire td_cache, 0) of Inl e \<Rightarrow> Inl e | Inr (cache, col_idx) \<Rightarrow> Inr cache)"

definition get_td :: "td_cache \<Rightarrow> nat \<Rightarrow> error + node" where
  "get_td td_cache idx =
     (case map_of td_cache idx of None \<Rightarrow> Inl KeyError | Some (remaining, v) \<Rightarrow> Inr v)"

text \<open>
  Both extractors call \<open>set_tds\<close> once for every row of the table, in order;
  \<open>set_rows\<close> is the cache after a sequence of rows.
\<close>

definition set_rows :: "td_cache \<Rightarrow> node list list \<Rightarrow> error + td_cache" where
  "set_rows td_cache rows = for_each (\<lambda>tds cache. set_tds cache tds) rows td_cache"

text \<open>
  The insertion pass tests only the first column of a cell against the cache. A row
  fits the grid when every column that the pass writes for a cell is free at that
  moment, so that no cell is laid over an entry that the cache holds; \<open>rows_fit\<close> says
  so of each row of a sequence, in the cache that the rows before it leave.
\<close>

fun fits :: "node list \<Rightarrow> td_cache \<times> nat \<Rightarrow> bool" where
  "fits [] s = True"
| "fits (td # tds) (cache, col_idx) =
     (case int_attr td ''rowspan'' of
        Inl e \<Rightarrow> False
      | Inr rowspan \<Rightarrow>
          (case int_attr td ''colspan'' of
             Inl e \<Rightarrow> False
           | Inr colspan \<Rightarrow>
               list_all (\<lambda>c. c \<notin> set (map fst cache))
                 [skip_cols cache col_idx..<skip_cols cache col_idx + nat colspan]
               \<and> fits tds (fill_cols (nat colspan) (rowspan, td) (cache, skip_cols cache col_idx))))"

fun rows_fit :: "td_cache \<Rightarrow> node list list \<Rightarrow> bool" where
  "rows_fit cache [] = True"
| "rows_fit cache (tds # rows) =
     (fits tds (expire cache, 0)
      \<and> (case set_tds cache tds of Inl e \<Rightarrow> False | Inr cache' \<Rightarrow> rows_fit cache' rows))"

section \<open>Removing decoration elements\<close>

text \<open>
  \<open>find_all\<close> offers only elements to a function filter, so a leaf never matches.
\<close>

fun is_uninteresting :: "node \<Rightarrow> bool" where
  "is_uninteresting (Tag n a cs) = (n \<in> {''sup'', ''img''})"
| "is_uninteresting (NavigableString s) = False"
| "is_uninteresting (Comment s) = False"

text \<open>
  Lines 59-60 and 87-88: every descendant that \<open>find_all\<close> returns is cut out of the tree
  together with its subtree (\<open>decompose\<close>); what is left is the tree without them.
\<close>

fun decompose_all :: "(node \<Rightarrow> bool) \<Rightarrow> node \<Rightarrow> node" where
  "decompose_all p (Tag n a cs) = Tag n a (map (decompose_all p) (filter (\<lambda>c. \<not> p c) cs))"
| "decompose_all p (NavigableString s) = NavigableString s"
| "decompose_all p (Comment s) = Comment s"

text \<open>
  The table is an object that the caller and the extractor share: a store maps object
  references to trees, and the extractors take a reference and return the store they
  leave behind.
\<close>

type_synonym ref = nat
type_synonym store = "ref \<Rightarrow> node"

section \<open>parse_road_types_table\<close>

type_synonym road_class = "(string \<times> string) list"
type_synonym road_types = "(string \<times> road_class) list"

text \<open>Lines 71-74: the three optional keys of a road class.\<close>

definition set_if_present :: "string \<Rightarrow> string \<Rightarrow> road_class \<Rightarrow> road_class" where
  "set_if_present key text d = (if text \<noteq> [] then AList.update key text d else d)"

text \<open>Lines 64-75: the body of the loop over the rows.\<close>

definition road_types_row :: "node \<Rightarrow> td_cache \<times> road_types \<Rightarrow> error + td_cache \<times> road_types" where
  "road_types_row row s =
     (case s of (td_cache, result) \<Rightarrow>
        let tds = find_all (named ''td'') row in
        bind (set_tds td_cache tds) (\<lambda>td_cache.
          if tds \<noteq> [] then
            bind (get_td td_cache 0) (\<lambda>td0.
            bind (get_td td_cache 1) (\<lambda>td1.
            bind (get_td td_cache 2) (\<lambda>td2.
            bind (get_td td_cache 3) (\<lambda>td3.
              let road_type = get_text [] td0;
                  tags_filter = get_text '' '' td1;
                  fuzzy_tags_filter = get_text '' '' td2;
                  relation_tags_filter = get_text '' '' td3;
                  road_class =
                    set_if_present ''relationFilter'' relation_tags_filter
                      (set_if_present ''fuzzyFilter'' fuzzy_tags_filter
                        (set_if_present ''filter'' tags_filter []))
              in Inr (td_cache, AList.update road_type road_class result)))))
          else Inr (td_cache, result)))"

definition parse_road_types_table :: "ref \<Rightarrow> store \<Rightarrow> (error + road_types) \<times> store" where
  "parse_road_types_table table h =
     (let h = h(table := decompose_all is_uninteresting (h table)) in
      (bind (for_each road_types_row (find_all (named ''tr'') (h table)) ([], []))
         (\<lambda>(td_cache, result). Inr result),
       h))"

section \<open>get_country_code\<close>

definition country_codes :: "(string \<times> string) list" where
  "country_codes =
    [(''Brunei'', ''BN''),
     (''Belgium:Brussels-Capital Region'', ''BE-BRU''),
     (''Belgium:Flanders'', ''BE-VLG''),
     (''Belgium:Wallonia'', ''BE-WAL''),
     (''Democratic Republic of the Congo'', ''CD''),
     (''Kosovo'', ''XK''),
     (''Micronesia'', ''FM''),
     (''Micronesia:Kosrae'', ''FM-KSA''),
     (''Micronesia:Pohnpei'', ''FM-PNI''),
     (''Micronesia:Chuuk'', ''FM-TRK''),
     (''Micronesia:Yap'', ''FM-YAP''),
     (''Netherlands:Bonaire'', ''NL-BQ1''),
     (''Netherlands:Saba'', ''NL-BQ2''),
     (''Netherlands:Sint Eustatius'', ''NL-BQ3''),
     (''Palestine'', ''PS''),
     (''Pitcairn Islands'', ''PN''),
     (''Russia'', ''RU''),
     (''Turkey'', ''TR''),
     (''United Kingdom:Scotland'', ''GB-SCT'')]"

text \<open>
  The reference database (pycountry) is a parameter: \<open>countries_lookup\<close> gives the
  alpha-2 code of a country name or raises, \<open>subdivisions_get\<close> gives the subdivisions of
  a country code as (name, code) pairs or raises.
\<close>

record reference =
  countries_lookup :: "string \<Rightarrow> error + string"
  subdivisions_get :: "string \<Rightarrow> error + (string \<times> string) list"

text \<open>
  Lines 153-154 and 158-159: the parts of the name. \<open>split\<close> never returns the empty
  list, so part 0 always exists; part 1 exists when there are at least two parts.
\<close>

definition country_name_of :: "string \<Rightarrow> string" where
  "country_name_of name = (case split CHR '':'' name of [] \<Rightarrow> [] | p # ps \<Rightarrow> strip p)"

definition subdivision_name_of :: "string \<Rightarrow> string option" where
  "subdivision_name_of name =
     (case split CHR '':'' name of p # q # ps \<Rightarrow> Some (strip q) | _ \<Rightarrow> None)"

text \<open>The result is \<open>None\<close> where the source returns no value.\<close>

definition get_country_code :: "reference \<Rightarrow> string \<Rightarrow> string option" where
  "get_country_code reference name =
     (case map_of country_codes name of
        Some code \<Rightarrow> Some code
      | None \<Rightarrow>
          let country_name = country_name_of name in
          (case countries_lookup reference country_name of
             Inl e \<Rightarrow> None
           | Inr country_code \<Rightarrow>
               (case subdivision_name_of name of
                  Some subdivision_name \<Rightarrow>
                    (case subdivisions_get reference country_code of
                       Inl e \<Rightarrow> None
                     | Inr subdivisions \<Rightarrow>
                         map_option snd (find (\<lambda>subdivision. fst subdivision = subdivision_name) subdivisions))
                | None \<Rightarrow> Some country_code)))"

text \<open>
  For stating what the resolver reads from a display name: the text before the first
  colon of a string, and the text after it.
\<close>

abbreviation before_colon :: "string \<Rightarrow> string" where
  "before_colon s \<equiv> takeWhile (\<lambda>c. c \<noteq> CHR '':'') s"

abbreviation after_colon :: "string \<Rightarrow> string" where
  "after_colon s \<equiv> tl (dropWhile (\<lambda>c. c \<noteq> CHR '':'') s)"

section \<open>validate_road_types\<close>

text \<open>
  \<open>finditer("{.*?}", f)\<close>: from an opening brace, the shortest run of characters other
  than newline up to a closing brace; the search goes on after the match, or one
  character further when no match starts here. \<open>close_brace\<close> gives the text between
  the braces and the text after the match.
\<close>

fun close_brace :: "string \<Rightarrow> (string \<times> string) option" where
  "close_brace [] = None"
| "close_brace (c # cs) =
     (if c = CHR ''}'' then Some ([], cs)
      else if c = CHR 0x0A then None
      else map_option (\<lambda>(inner, rest). (c # inner, rest)) (close_brace cs))"

function placeholders :: "string \<Rightarrow> string list" where
  "placeholders [] = []"
| "placeholders (c # cs) =
     (if c = CHR ''{'' then
        (case close_brace cs of
           Some (inner, rest) \<Rightarrow> inner # placeholders rest
         | None \<Rightarrow> placeholders cs)
      else placeholders cs)"
  by pat_completeness auto
termination
proof (relation "measure length")
  fix c :: char and cs :: string and x2 :: "string \<times> string" and inner rest :: string
  assume "close_brace cs = Some x2" and "(inner, rest) = x2"
  then have "close_brace cs = Some (inner, rest)" by simp
  then have "length rest < length cs"
    by (induction cs arbitrary: inner) (auto split: if_splits)
  then show "(rest, c # cs) \<in> measure length" by simp
qed simp_all

text \<open>Lines 197-200: the filter expressions that are present, in this order.\<close>

definition all_filters :: "road_class \<Rightarrow> string list" where
  "all_filters filters =
     (case map_of filters ''filter'' of None \<Rightarrow> [] | Some f \<Rightarrow> [f]) @
     (case map_of filters ''fuzzyFilter'' of None \<Rightarrow> [] | Some f \<Rightarrow> [f]) @
     (case map_of filters ''relationFilter'' of None \<Rightarrow> [] | Some f \<Rightarrow> [f])"

text \<open>Lines 203-205: one match.\<close>

definition check_placeholder :: "road_types \<Rightarrow> string \<Rightarrow> string \<Rightarrow> string list \<Rightarrow> string list" where
  "check_placeholder road_types road_type placeholder warnings =
     (if placeholder \<notin> set (map fst road_types)
      then warnings @ [road_type @ '': Unable to map '' @ [CHR 0x27] @ placeholder @ [CHR 0x27]]
      else warnings)"

definition validate_road_types :: "road_types \<Rightarrow> string list" where
  "validate_road_types road_types =
     fold (\<lambda>(road_type, filters) warnings.
             fold (\<lambda>f warnings.
                     fold (check_placeholder road_types road_type) (placeholders f) warnings)
               (all_filters filters) warnings)
       road_types []"

text \<open>
  The mapping is an object of the caller. \<open>validate_road_types_at\<close> takes its reference
  and a store of mappings and returns, with the warnings, the store that the call
  leaves behind. The source only reads the mapping (\<open>items()\<close>, \<open>in\<close>, indexing), and the
  list it appends to is its own.
\<close>

type_synonym dict_store = "ref \<Rightarrow> road_types"

definition validate_road_types_at :: "ref \<Rightarrow> dict_store \<Rightarrow> string list \<times> dict_store" where
  "validate_road_types_at road_types h = (validate_road_types (h road_types), h)"

section \<open>parse_speed_table\<close>

text \<open>
  The loop over the rows works on four local variables, \<open>column_names\<close>, \<open>result\<close>,
  \<open>warnings\<close> and the cache of the row helper; they are the fields of \<open>speed_state\<close>
  below. An entry of the result, \<open>road_entry\<close>, is \<open>{'tags': road_tags}\<close> with the key
  \<open>'name'\<close> when the road type is not empty.
\<close>

text \<open>Lines 95-98: the first header row appends one name per logical column.\<close>

definition append_header :: "node \<Rightarrow> string list \<Rightarrow> error + string list" where
  "append_header th column_names =
     (let th_text = get_text [] th in
      bind (int_attr th ''colspan'') (\<lambda>colspan. Inr (column_names @ replicate (nat colspan) th_text)))"

text \<open>
  Lines 100-104: a later header row. \<open>column_names[i + j] = th_text\<close> raises IndexError
  past the end of the list.
\<close>

definition assign_name :: "nat \<Rightarrow> string \<Rightarrow> nat \<Rightarrow> string list \<Rightarrow> error + string list" where
  "assign_name i th_text j column_names =
     (if i + j < length column_names then Inr (column_names[i + j := th_text]) else Inl IndexError)"

definition revise_header :: "nat \<times> node \<Rightarrow> string list \<Rightarrow> error + string list" where
  "revise_header ith column_names =
     (case ith of (i, th) \<Rightarrow>
        let th_text = get_text [] th in
        if th_text \<noteq> [] then
          bind (int_attr th ''colspan'') (\<lambda>colspan.
            for_each (assign_name i th_text) [0..<nat colspan] column_names)
        else Inr column_names)"

definition header_row :: "node list \<Rightarrow> string list \<Rightarrow> error + string list" where
  "header_row th_tags column_names =
     (if length th_tags > 0 then
        (if length column_names = 0 then for_each append_header th_tags column_names
         else for_each revise_header (enumerate 0 th_tags) column_names)
      else Inr column_names)"

text \<open>Lines 132-134: the key under which a parsed tag is stored.\<close>

definition rewrite_key :: "string \<Rightarrow> string \<Rightarrow> string" where
  "rewrite_key vehicle_type key =
     (if vehicle_type \<noteq> ''(default)'' then
        replace ''access'' vehicle_type None
          (replace ''maxspeed'' (''maxspeed:'' @ vehicle_type) (Some 1) key)
      else key)"

text \<open>
  Lines 120-135: the body of the loop over the columns from 2 on. The handler on lines
  127-129 sets \<open>parsed_speeds = {}\<close> and then builds the warning text from
  \<open>country_and_subdivision_name\<close>, a name that is bound neither in \<open>parse_speed_table\<close>
  nor at module level: evaluating it raises NameError inside the handler, before
  anything is appended, and nothing catches it.
\<close>

definition speed_cell ::
  "(string \<Rightarrow> error + (string \<times> string) list) \<Rightarrow> td_cache \<Rightarrow> string list \<Rightarrow> nat
    \<Rightarrow> (string \<times> string) list \<Rightarrow> error + (string \<times> string) list" where
  "speed_cell speed_parse_func td_cache column_names col_idx road_tags =
     bind (get_td td_cache col_idx) (\<lambda>td.
       let speeds = get_text [] td in
       if speeds \<noteq> [] then
         let vehicle_type = column_names ! col_idx in
         (case speed_parse_func speeds of
            Inl e \<Rightarrow> Inl (NameError ''country_and_subdivision_name'')
          | Inr parsed_speeds \<Rightarrow>
              Inr (fold (\<lambda>(key, value). AList.update (rewrite_key vehicle_type key) value)
                     parsed_speeds road_tags))
       else Inr road_tags)"

record road_entry =
  tags :: "(string \<times> string) list"
  name :: "string option"

text \<open>Lines 137-144: the entry is appended to the list of its country code.\<close>

definition append_entry ::
  "string \<Rightarrow> road_entry \<Rightarrow> (string \<times> road_entry list) list \<Rightarrow> (string \<times> road_entry list) list" where
  "append_entry country_code road_class result =
     (let result = (if country_code \<notin> set (map fst result)
                    then AList.update country_code [] result else result)
      in AList.update country_code
           ((case map_of result country_code of None \<Rightarrow> [] | Some entries \<Rightarrow> entries) @ [road_class])
           result)"

text \<open>\<open>if not country_code\<close>: no value and the empty string are both false.\<close>

definition falsy :: "string option \<Rightarrow> bool" where
  "falsy country_code = (country_code = None \<or> country_code = Some [])"

record speed_state =
  column_names :: "string list"
  result :: "(string \<times> road_entry list) list"
  warnings :: "string list"
  td_cache :: td_cache

text \<open>Lines 92-144: the body of the loop over the rows.\<close>

definition speed_row ::
  "reference \<Rightarrow> (string \<Rightarrow> error + (string \<times> string) list) \<Rightarrow> node \<Rightarrow> speed_state
    \<Rightarrow> error + speed_state" where
  "speed_row reference speed_parse_func row s =
     (let th_tags = find_all (named ''th'') row in
      bind (header_row th_tags (column_names s)) (\<lambda>column_names.
        let tds = find_all (named ''td'') row in
        bind (set_tds (td_cache s) tds) (\<lambda>td_cache.
          let s = s\<lparr>column_names := column_names, td_cache := td_cache\<rparr> in
          if tds \<noteq> [] then
            bind (get_td td_cache 0) (\<lambda>td0.
              let country = get_text [] td0;
                  country_code = get_country_code reference country in
              if falsy country_code then
                Inr (s\<lparr>warnings := warnings s @ [country @ '': Unknown country / subdivision'']\<rparr>)
              else
                bind (get_td td_cache 1) (\<lambda>td1.
                  let road_type = get_text [] td1 in
                  bind (for_each (speed_cell speed_parse_func td_cache column_names)
                          [2..<length column_names] [])
                    (\<lambda>road_tags.
                       let road_class = \<lparr>tags = road_tags,
                                          name = (if road_type \<noteq> [] then Some road_type else None)\<rparr>
                       in Inr (s\<lparr>result := append_entry (the country_code) road_class (result s)\<rparr>))))
          else Inr s)))"

record speed_table =
  speedLimitsByCountryCode :: "(string \<times> road_entry list) list"
  table_warnings :: "string list"

definition parse_speed_table ::
  "reference \<Rightarrow> ref \<Rightarrow> (string \<Rightarrow> error + (string \<times> string) list) \<Rightarrow> store
    \<Rightarrow> (error + speed_table) \<times> store" where
  "parse_speed_table reference table speed_parse_func h =
     (let h = h(table := decompose_all is_uninteresting (h table)) in
      (bind (for_each (speed_row reference speed_parse_func) (find_all (named ''tr'') (h table))
               \<lparr>column_names = [], result = [], warnings = [], td_cache = []\<rparr>)
         (\<lambda>s. Inr \<lparr>speedLimitsByCountryCode = result s, table_warnings = warnings s\<rparr>),
       h))"

section \<open>Example inputs\<close>

text \<open>
  A reference database that knows one country, \<open>Country\<close> with code \<open>CC\<close>, whose only
  subdivision is named \<open>Sub:division\<close>.
\<close>

definition one_country :: reference where
  "one_country =
     \<lparr>countries_lookup = (\<lambda>n. if n = ''Country'' then Inr ''CC'' else Inl LookupError),
      subdivisions_get = (\<lambda>c. Inr [(''Sub:division'', ''CC-SD'')])\<rparr>"

text \<open>
  A reference database for the same country with a second subdivision, named \<open>Sub\<close>.
\<close>

definition two_subdivisions :: reference where
  "two_subdivisions =
     \<lparr>countries_lookup = (\<lambda>n. if n = ''Country'' then Inr ''CC'' else Inl LookupError),
      subdivisions_get = (\<lambda>c. Inr [(''Sub:division'', ''CC-SD''), (''Sub'', ''CC-S'')])\<rparr>"

text \<open>
  A reference database that knows the same country and fails when its subdivisions
  are asked for.
\<close>

definition no_subdivisions :: reference where
  "no_subdivisions =
     \<lparr>countries_lookup = (\<lambda>n. if n = ''Country'' then Inr ''CC'' else Inl LookupError),
      subdivisions_get = (\<lambda>c. Inl TypeError)\<rparr>"

text \<open>
  A mapping with one road type that has all three filter expressions, and a store that
  holds the given mapping under every reference.
\<close>

definition three_filters :: road_types where
  "three_filters =
     [(''trunk'',
       [(''filter'', ''highway={primary}''),
        (''fuzzyFilter'', ''{trunk} or {rural road}''),
        (''relationFilter'', ''route={bus'' @ [CHR 0x0A] @ ''} and {a{b}'')])]"

definition dict_store_of :: "road_types \<Rightarrow> dict_store" where
  "dict_store_of d = (\<lambda>r. d)"

text \<open>A header cell and a data cell with the given attributes and text.\<close>

definition th_cell :: "(string \<times> string) list \<Rightarrow> string \<Rightarrow> node" where
  "th_cell a s = Tag ''th'' a [NavigableString s]"

definition td_cell :: "(string \<times> string) list \<Rightarrow> string \<Rightarrow> node" where
  "td_cell a s = Tag ''td'' a [NavigableString s]"

text \<open>A store that holds the given table under every reference.\<close>

definition table_store :: "node \<Rightarrow> store" where
  "table_store t = (\<lambda>r. t)"

text \<open>
  A speed-parsing function that fails on every text, and a table of one header row and
  one data row for Brunei whose speed cell is not empty.
\<close>

definition failing_parser :: "string \<Rightarrow> error + (string \<times> string) list" where
  "failing_parser speeds = Inl ParseError"

definition failing_table :: node where
  "failing_table =
     Tag ''table'' []
       [Tag ''tr'' [] [th_cell [] ''Country'', th_cell [] ''Road type'', th_cell [] ''(default)''],
        Tag ''tr'' [] [td_cell [] ''Brunei'', td_cell [] ''motorway'', td_cell [] ''fast'']]"

text \<open>
  A data row for a jurisdiction that nothing resolves, and a state of the row loop in
  which an earlier row has left an entry and a warning.
\<close>

definition unknown_row :: node where
  "unknown_row = Tag ''tr'' [] [td_cell [] ''Unknownland'', td_cell [] ''motorway'', td_cell [] ''50'']"

definition some_state :: speed_state where
  "some_state = \<lparr>column_names = [''Country'', ''Road type'', ''(default)''],
     result = [(''BN'', [\<lparr>tags = [(''maxspeed'', ''50'')], name = None\<rparr>])],
     warnings = [''earlier warning''], td_cache = []\<rparr>"

text \<open>
  A table of one row of four cells: the first cell carries a footnote marker, the third
  holds only an image.
\<close>

definition footnote_table :: node where
  "footnote_table =
     Tag ''table'' []
       [Tag ''tr'' []
          [Tag ''td'' [] [NavigableString ''motorway'', Tag ''sup'' [] [NavigableString ''1'']],
           td_cell [] ''highway=motorway'',
           Tag ''td'' [] [Tag ''img'' [(''src'', ''sign.png'')] []],
           td_cell [] []]]"

section \<open>Basic facts\<close>

lemma bind_Inr [simp]: "bind (Inr x) f = f x"
  by (simp add: bind_def)

lemma bind_Inl [simp]: "bind (Inl e) f = Inl e"
  by (simp add: bind_def)

lemma split_no_sep: "sep \<notin> set a \<Longrightarrow> split sep a = [a]"
  by (induction a) auto

lemma split_at_sep: "sep \<notin> set a \<Longrightarrow> split sep (a @ sep # rest) = a # split sep rest"
  by (induction a) auto

lemma split_not_Nil: "split sep s \<noteq> []"
  by (induction s) (auto split: list.splits)

section \<open>The Jurisdiction Code Resolver\<close>

lemma split_first:
  "split sep s = takeWhile (\<lambda>c. c \<noteq> sep) s
     # (if sep \<in> set s then split sep (tl (dropWhile (\<lambda>c. c \<noteq> sep) s)) else [])"
  by (induction s) auto

lemma country_name_general: "country_name_of dn = strip (before_colon dn)"
  unfolding country_name_of_def by (subst split_first) simp

lemma subdivision_name_general:
  "subdivision_name_of dn
    = (if CHR '':'' \<in> set dn then Some (strip (before_colon (after_colon dn))) else None)"
proof (cases "CHR '':'' \<in> set dn")
  case True
  obtain ps where "split CHR '':'' (after_colon dn) = before_colon (after_colon dn) # ps"
    using split_first [of "CHR '':''" "after_colon dn"] by simp
  then have "split CHR '':'' dn = before_colon dn # before_colon (after_colon dn) # ps"
    using split_first [of "CHR '':''" dn] True by simp
  then show ?thesis using True by (simp add: subdivision_name_of_def)
next
  case False
  then have "split CHR '':'' dn = [before_colon dn]"
    using split_first [of "CHR '':''" dn] by simp
  then show ?thesis using False by (simp add: subdivision_name_of_def)
qed

lemma strip_blank: "list_all isspace l \<Longrightarrow> strip l = []"
proof -
  assume "list_all isspace l"
  then have blank: "dropWhile isspace l = []" by (induction l) auto
  show ?thesis unfolding strip_def blank by simp
qed

lemma strip_core:
  assumes "list_all isspace l" and "list_all isspace r"
    and "m \<noteq> []" and "\<not> isspace (hd m)" and "\<not> isspace (last m)"
  shows "strip (l @ m @ r) = m"
proof -
  have "dropWhile isspace (l @ m @ r) = dropWhile isspace (m @ r)"
    using dropWhile_append2 [of l isspace "m @ r"] assms(1) by (simp add: list_all_iff)
  also have "\<dots> = m @ r"
    using assms(3,4) by (cases m) auto
  finally have front: "dropWhile isspace (l @ m @ r) = m @ r" .
  have "dropWhile isspace (rev (m @ r)) = dropWhile isspace (rev m)"
    using dropWhile_append2 [of "rev r" isspace "rev m"] assms(2) by (simp add: list_all_iff)
  also have "\<dots> = rev m"
    using assms(3,5) by (cases m rule: rev_cases) auto
  finally show ?thesis using front by (simp add: strip_def)
qed

lemma resolver_outside_table:
  assumes "map_of country_codes dn = None"
  shows "get_country_code reference dn
    = (case countries_lookup reference (strip (before_colon dn)) of
         Inl e \<Rightarrow> None
       | Inr cc \<Rightarrow>
           if CHR '':'' \<notin> set dn then Some cc
           else (case subdivisions_get reference cc of
                   Inl e \<Rightarrow> None
                 | Inr subs \<Rightarrow>
                     map_option snd
                       (find (\<lambda>subdivision. fst subdivision = strip (before_colon (after_colon dn))) subs)))"
  using assms
  by (simp add: get_country_code_def country_name_general subdivision_name_general
      split: sum.splits)

lemma find_absent: "x \<notin> fst ` set xs \<Longrightarrow> find (\<lambda>p. fst p = x) xs = None"
  by (induction xs) auto

text \<open>
  C4. A display name found in the override table gets the code of the table, whatever
  the reference database would answer: \<open>Brunei\<close> gives \<open>BN\<close> and \<open>Belgium:Flanders\<close> gives
  \<open>BE-VLG\<close> for every reference. A name that is not in the table gets no code when the
  reference does not know its country part, when the name has a subdivision part and
  the reference fails to give the subdivisions of the country, and when it has a
  subdivision part that none of the subdivisions of the country is named by.
\<close>

theorem override_table_first:
  "(map_of country_codes dn = Some code \<longrightarrow> get_country_code reference dn = Some code)
   \<and> get_country_code reference ''Brunei'' = Some ''BN''
   \<and> get_country_code reference ''Belgium:Flanders'' = Some ''BE-VLG''
   \<and> (map_of country_codes dn1 = None
        \<and> countries_lookup r1 (strip (before_colon dn1)) = Inl e1
        \<longrightarrow> get_country_code r1 dn1 = None)
   \<and> (map_of country_codes dn2 = None
        \<and> countries_lookup r2 (strip (before_colon dn2)) = Inr cc2
        \<and> CHR '':'' \<in> set dn2
        \<and> subdivisions_get r2 cc2 = Inl e2
        \<longrightarrow> get_country_code r2 dn2 = None)
   \<and> (map_of country_codes dn3 = None
        \<and> countries_lookup r3 (strip (before_colon dn3)) = Inr cc3
        \<and> CHR '':'' \<in> set dn3
        \<and> subdivisions_get r3 cc3 = Inr subs3
        \<and> strip (before_colon (after_colon dn3)) \<notin> fst ` set subs3
        \<longrightarrow> get_country_code r3 dn3 = None)
   \<and> get_country_code one_country ''Unknownland'' = None
   \<and> get_country_code one_country ''Country:Nowhere'' = None
   \<and> get_country_code no_subdivisions ''Country:Sub'' = None"
proof -
  have table: "map_of country_codes dn = Some code \<longrightarrow> get_country_code reference dn = Some code"
    by (simp add: get_country_code_def)
  have brunei: "get_country_code reference ''Brunei'' = Some ''BN''"
    by (simp add: get_country_code_def country_codes_def)
  have flanders: "get_country_code reference ''Belgium:Flanders'' = Some ''BE-VLG''"
    by (simp add: get_country_code_def country_codes_def)
  have country: "get_country_code r1 dn1 = None"
    if "map_of country_codes dn1 = None" "countries_lookup r1 (strip (before_colon dn1)) = Inl e1"
    using that by (simp add: resolver_outside_table)
  have raises: "get_country_code r2 dn2 = None"
    if "map_of country_codes dn2 = None" "countries_lookup r2 (strip (before_colon dn2)) = Inr cc2"
      "CHR '':'' \<in> set dn2" "subdivisions_get r2 cc2 = Inl e2"
    using that by (simp add: resolver_outside_table)
  have unnamed: "get_country_code r3 dn3 = None"
    if "map_of country_codes dn3 = None" "countries_lookup r3 (strip (before_colon dn3)) = Inr cc3"
      "CHR '':'' \<in> set dn3" "subdivisions_get r3 cc3 = Inr subs3"
      "strip (before_colon (after_colon dn3)) \<notin> fst ` set subs3"
    using that by (simp add: resolver_outside_table find_absent)
  have i1: "get_country_code one_country ''Unknownland'' = None" by code_simp
  have i2: "get_country_code one_country ''Country:Nowhere'' = None" by code_simp
  have i3: "get_country_code no_subdivisions ''Country:Sub'' = None" by code_simp
  from table brunei flanders country raises unnamed i1 i2 i3 show ?thesis by blast
qed

theorem override_table_first_witness:
  "map_of country_codes ''Kosovo'' = Some ''XK''
   \<and> get_country_code one_country ''Kosovo'' = Some ''XK''
   \<and> map_of country_codes ''Unknownland'' = None
   \<and> countries_lookup one_country (strip (before_colon ''Unknownland'')) = Inl LookupError
   \<and> get_country_code one_country ''Unknownland'' = None
   \<and> map_of country_codes ''Country:Sub'' = None
   \<and> countries_lookup no_subdivisions (strip (before_colon ''Country:Sub'')) = Inr ''CC''
   \<and> CHR '':'' \<in> set ''Country:Sub''
   \<and> subdivisions_get no_subdivisions ''CC'' = Inl TypeError
   \<and> get_country_code no_subdivisions ''Country:Sub'' = None
   \<and> map_of country_codes ''Country:Nowhere'' = None
   \<and> countries_lookup one_country (strip (before_colon ''Country:Nowhere'')) = Inr ''CC''
   \<and> CHR '':'' \<in> set ''Country:Nowhere''
   \<and> subdivisions_get one_country ''CC'' = Inr [(''Sub:division'', ''CC-SD'')]
   \<and> strip (before_colon (after_colon ''Country:Nowhere'')) \<notin> fst ` set [(''Sub:division'', ''CC-SD'')]
   \<and> get_country_code one_country ''Country:Nowhere'' = None"
proof -
  have h1: "map_of country_codes ''Kosovo'' = Some ''XK''" by code_simp
  have h2: "map_of country_codes ''Unknownland'' = None" by code_simp
  have h3: "countries_lookup one_country (strip (before_colon ''Unknownland'')) = Inl LookupError"
    by code_simp
  have h4: "map_of country_codes ''Country:Sub'' = None" by code_simp
  have h5: "countries_lookup no_subdivisions (strip (before_colon ''Country:Sub'')) = Inr ''CC''"
    by code_simp
  have h6: "CHR '':'' \<in> set ''Country:Sub''" by simp
  have h7: "subdivisions_get no_subdivisions ''CC'' = Inl TypeError" by code_simp
  have h8: "map_of country_codes ''Country:Nowhere'' = None" by code_simp
  have h9: "countries_lookup one_country (strip (before_colon ''Country:Nowhere'')) = Inr ''CC''"
    by code_simp
  have h10: "CHR '':'' \<in> set ''Country:Nowhere''" by simp
  have h11: "subdivisions_get one_country ''CC'' = Inr [(''Sub:division'', ''CC-SD'')]" by code_simp
  have h12: "strip (before_colon (after_colon ''Country:Nowhere''))
      \<notin> fst ` set [(''Sub:division'', ''CC-SD'')]" by code_simp
  from override_table_first [of "''Kosovo''" "''XK''" one_country
      "''Unknownland''" one_country LookupError
      "''Country:Sub''" no_subdivisions "''CC''" TypeError
      "''Country:Nowhere''" one_country "''CC''" "[(''Sub:division'', ''CC-SD'')]"]
    h1 h2 h3 h4 h5 h6 h7 h8 h9 h10 h11 h12
  show ?thesis by blast
qed

text \<open>
  C7, as the spec states it, fails: the name is split at every colon, and the
  subdivision text is the second part only. For \<open>Country:Sub:division\<close> the subdivision
  text is \<open>Sub\<close>: a subdivision named \<open>Sub:division\<close> is not found, and where the country
  has a subdivision named \<open>Sub\<close>, that one is returned.
\<close>

theorem every_colon_splits_counterexample:
  "subdivision_name_of ''Country:Sub:division'' = Some ''Sub''
   \<and> subdivision_name_of ''Country:Sub:division'' \<noteq> Some ''Sub:division''
   \<and> get_country_code one_country ''Country:Sub:division'' = None
   \<and> get_country_code two_subdivisions ''Country:Sub:division'' = Some ''CC-S''"
  by code_simp

text \<open>
  C7, amended. For every display name that is not in the override table, the country
  part is the trimmed text before the first colon, and a name with a colon has the
  subdivision text that is the trimmed text between its first and its second colon (to
  the end when there is no second colon): \<open>Country:Sub:division\<close> has the subdivision text
  \<open>Sub\<close>. Trimming removes the whitespace at both ends. The country part is looked up in
  the reference and the name gets no code when that fails; a name without a colon gets
  the code of the country; a name with a colon gets the code of the first subdivision
  of the country whose name is exactly the subdivision text, and no code when there
  is none or when the reference fails to give the subdivisions.
\<close>

theorem name_split_at_every_colon:
  "country_name_of dn = strip (before_colon dn)
   \<and> subdivision_name_of dn
       = (if CHR '':'' \<in> set dn then Some (strip (before_colon (after_colon dn))) else None)
   \<and> (map_of country_codes dn = None \<longrightarrow>
        get_country_code reference dn
          = (case countries_lookup reference (strip (before_colon dn)) of
               Inl e \<Rightarrow> None
             | Inr cc \<Rightarrow>
                 if CHR '':'' \<notin> set dn then Some cc
                 else (case subdivisions_get reference cc of
                         Inl e \<Rightarrow> None
                       | Inr subs \<Rightarrow>
                           map_option snd
                             (find (\<lambda>subdivision.
                                      fst subdivision = strip (before_colon (after_colon dn))) subs))))
   \<and> (CHR '':'' \<notin> set a \<and> CHR '':'' \<notin> set b \<longrightarrow>
        country_name_of a = strip a \<and> subdivision_name_of a = None
        \<and> country_name_of (a @ '':'' @ b) = strip a
        \<and> subdivision_name_of (a @ '':'' @ b) = Some (strip b)
        \<and> country_name_of (a @ '':'' @ b @ '':'' @ c) = strip a
        \<and> subdivision_name_of (a @ '':'' @ b @ '':'' @ c) = Some (strip b))
   \<and> (list_all isspace l \<and> list_all isspace r \<and> m \<noteq> [] \<and> \<not> isspace (hd m) \<and> \<not> isspace (last m)
        \<longrightarrow> strip (l @ m @ r) = m \<and> strip l = [])
   \<and> get_country_code two_subdivisions ''Country'' = Some ''CC''
   \<and> get_country_code two_subdivisions ''Country:Sub'' = Some ''CC-S''
   \<and> get_country_code two_subdivisions '' Country : Sub : division '' = Some ''CC-S''
   \<and> get_country_code two_subdivisions ''Country:Sub:division'' = Some ''CC-S''
   \<and> get_country_code two_subdivisions ''Country:Nowhere'' = None
   \<and> get_country_code two_subdivisions ''Unknownland:Sub'' = None"
proof -
  have forms: "country_name_of a = strip a \<and> subdivision_name_of a = None
        \<and> country_name_of (a @ '':'' @ b) = strip a
        \<and> subdivision_name_of (a @ '':'' @ b) = Some (strip b)
        \<and> country_name_of (a @ '':'' @ b @ '':'' @ c) = strip a
        \<and> subdivision_name_of (a @ '':'' @ b @ '':'' @ c) = Some (strip b)"
    if "CHR '':'' \<notin> set a" "CHR '':'' \<notin> set b"
    using that
    by (simp add: country_name_of_def subdivision_name_of_def split_at_sep split_no_sep)
  have trim: "strip (l @ m @ r) = m \<and> strip l = []"
    if "list_all isspace l" "list_all isspace r" "m \<noteq> []" "\<not> isspace (hd m)" "\<not> isspace (last m)"
    using that by (simp add: strip_core strip_blank)
  have i1: "get_country_code two_subdivisions ''Country'' = Some ''CC''" by code_simp
  have i2: "get_country_code two_subdivisions ''Country:Sub'' = Some ''CC-S''" by code_simp
  have i3: "get_country_code two_subdivisions '' Country : Sub : division '' = Some ''CC-S''"
    by code_simp
  have i4: "get_country_code two_subdivisions ''Country:Sub:division'' = Some ''CC-S''" by code_simp
  have i5: "get_country_code two_subdivisions ''Country:Nowhere'' = None" by code_simp
  have i6: "get_country_code two_subdivisions ''Unknownland:Sub'' = None" by code_simp
  from country_name_general [of dn] subdivision_name_general [of dn]
    resolver_outside_table [of dn reference] forms trim i1 i2 i3 i4 i5 i6
  show ?thesis by blast
qed

theorem name_split_at_every_colon_witness:
  "map_of country_codes ''Country:Sub:division'' = None
   \<and> get_country_code two_subdivisions ''Country:Sub:division'' = Some ''CC-S''
   \<and> CHR '':'' \<notin> set ''Country'' \<and> CHR '':'' \<notin> set ''Sub''
   \<and> subdivision_name_of ''Country:Sub:division'' = Some ''Sub''
   \<and> subdivision_name_of ''Country:Sub'' = Some ''Sub''
   \<and> subdivision_name_of ''Country'' = None
   \<and> list_all isspace '' '' \<and> list_all isspace ''  ''
   \<and> ''Sub'' \<noteq> [] \<and> \<not> isspace (hd ''Sub'') \<and> \<not> isspace (last ''Sub'')
   \<and> strip ('' '' @ ''Sub'' @ ''  '') = ''Sub''"
proof -
  have h1: "map_of country_codes ''Country:Sub:division'' = None" by code_simp
  have h2: "CHR '':'' \<notin> set ''Country''" "CHR '':'' \<notin> set ''Sub''" by simp_all
  have h3: "list_all isspace '' ''" "list_all isspace ''  ''" by code_simp+
  have h4: "''Sub'' \<noteq> []" "\<not> isspace (hd ''Sub'')" "\<not> isspace (last ''Sub'')" by code_simp+
  have s1: "strip ''Country'' = ''Country''" "strip ''Sub'' = ''Sub''" by code_simp+
  have s2: "strip (before_colon (after_colon ''Country:Sub:division'')) = ''Sub''" by code_simp
  from name_split_at_every_colon [of "''Country:Sub:division''" two_subdivisions
      "''Country''" "''Sub''" "''division''" "'' ''" "''  ''" "''Sub''"]
    h1 h2 h3 h4 s1 s2
  show ?thesis by (simp add: two_subdivisions_def)
qed

section \<open>The key rewrite of the Speed Table Extractor\<close>

lemma replace_absent: "\<not> sublist old s \<Longrightarrow> replace old new count s = s"
  by (induction s arbitrary: count) (auto simp: sublist_Cons_right)

lemma replace_zero: "replace old new (Some 0) s = s"
  by (cases s) auto

lemma prefix_within:
  assumes "old \<noteq> []" and "prefix old (p # pre @ old @ post)"
  shows "prefix old (p # pre @ butlast old)"
proof -
  have "p # pre @ old @ post = (p # pre @ butlast old) @ (last old # post)"
    using assms(1) by simp
  with assms(2) have "prefix old ((p # pre @ butlast old) @ (last old # post))" by simp
  then consider "prefix old (p # pre @ butlast old)"
    | us where "old = (p # pre @ butlast old) @ us"
    unfolding prefix_append by blast
  then show ?thesis
  proof cases
    case 1 then show ?thesis .
  next
    case 2
    then have "length old = length ((p # pre @ butlast old) @ us)" by simp
    moreover have "0 < length old" using assms(1) by simp
    ultimately have "us = []" by simp
    with 2 show ?thesis by simp
  qed
qed

lemma replace_first_occurrence:
  assumes "old \<noteq> []" and "\<not> sublist old (pre @ butlast old)" and "count \<noteq> Some 0"
  shows "replace old new count (pre @ old @ post)
    = pre @ new @ replace old new (map_option (\<lambda>n. n - 1) count) post"
  using assms(2)
proof (induction pre)
  case Nil
  obtain c cs where old: "old = c # cs" using assms(1) by (cases old) auto
  have "replace old new count ((c # cs) @ post)
    = new @ replace old new (map_option (\<lambda>n. n - 1) count) (drop (length old) ((c # cs) @ post))"
    using assms(3) old by simp
  then show ?case using old by simp
next
  case (Cons p pre)
  from Cons.prems have np: "\<not> prefix old (p # pre @ butlast old)"
    and ns: "\<not> sublist old (pre @ butlast old)"
    by (auto simp: sublist_Cons_right)
  from np have "\<not> prefix old (p # pre @ old @ post)"
    using prefix_within [OF assms(1)] by blast
  then show ?case using Cons.IH [OF ns] assms(1,3) by simp
qed

text \<open>
  C3, amended. In a column whose vehicle type is not \<open>(default)\<close>, the first occurrence
  of the text \<open>maxspeed\<close> anywhere in a key gets \<open>:<vehicle_type>\<close> appended, and then, in
  the key that this gives, every occurrence of the text \<open>access\<close> (from the left, without
  overlap, the vehicle type just inserted included) is replaced by the vehicle type:
  the key \<open>access\<close> becomes the vehicle type, \<open>access:conditional\<close> becomes
  \<open>hgv:conditional\<close> and \<open>maxspeed:access\<close> becomes \<open>maxspeed:hgv:hgv\<close>. A key that contains
  neither text passes through unchanged. In the \<open>(default)\<close> column every key is
  unchanged.
\<close>

theorem rewrite_key_substrings:
  "rewrite_key ''(default)'' key = key
   \<and> (vt \<noteq> ''(default)'' \<and> \<not> sublist ''maxspeed'' key
        \<longrightarrow> rewrite_key vt key = replace ''access'' vt None key)
   \<and> (vt \<noteq> ''(default)'' \<and> \<not> sublist ''maxspeed'' (pre @ ''maxspee'')
        \<longrightarrow> rewrite_key vt (pre @ ''maxspeed'' @ post)
              = replace ''access'' vt None (pre @ ''maxspeed:'' @ vt @ post))
   \<and> (\<not> sublist ''access'' s \<longrightarrow> replace ''access'' vt None s = s)
   \<and> (\<not> sublist ''access'' (a @ ''acces'')
        \<longrightarrow> replace ''access'' vt None (a @ ''access'' @ b) = a @ vt @ replace ''access'' vt None b)
   \<and> (vt \<noteq> ''(default)'' \<longrightarrow> rewrite_key vt ''access'' = vt)
   \<and> (vt \<noteq> ''(default)'' \<and> \<not> sublist ''maxspeed'' key \<and> \<not> sublist ''access'' key
        \<longrightarrow> rewrite_key vt key = key)
   \<and> rewrite_key ''hgv'' ''maxspeed'' = ''maxspeed:hgv''
   \<and> rewrite_key ''hgv'' ''maxspeed:conditional'' = ''maxspeed:hgv:conditional''
   \<and> rewrite_key ''hgv'' ''maxspeed:maxspeed'' = ''maxspeed:hgv:maxspeed''
   \<and> rewrite_key ''hgv'' ''access:conditional'' = ''hgv:conditional''
   \<and> rewrite_key ''hgv'' ''access:access'' = ''hgv:hgv''
   \<and> rewrite_key ''hgv'' ''maxspeed:access'' = ''maxspeed:hgv:hgv''
   \<and> rewrite_key ''xaccess'' ''maxspeed'' = ''maxspeed:xxaccess''"
proof -
  have c1: "rewrite_key ''(default)'' key = key"
    by (simp add: rewrite_key_def)
  have c2: "rewrite_key vt key = replace ''access'' vt None key"
    if "vt \<noteq> ''(default)''" "\<not> sublist ''maxspeed'' key"
    using that by (simp add: rewrite_key_def replace_absent)
  have c3: "rewrite_key vt (pre @ ''maxspeed'' @ post)
      = replace ''access'' vt None (pre @ ''maxspeed:'' @ vt @ post)"
    if "vt \<noteq> ''(default)''" "\<not> sublist ''maxspeed'' (pre @ ''maxspee'')"
  proof -
    have "replace ''maxspeed'' (''maxspeed:'' @ vt) (Some 1) (pre @ ''maxspeed'' @ post)
      = pre @ (''maxspeed:'' @ vt) @ replace ''maxspeed'' (''maxspeed:'' @ vt) (Some 0) post"
      using replace_first_occurrence [of "''maxspeed''" pre "Some 1" "''maxspeed:'' @ vt" post] that(2)
      by simp
    then have "replace ''maxspeed'' (''maxspeed:'' @ vt) (Some 1) (pre @ ''maxspeed'' @ post)
      = pre @ ''maxspeed:'' @ vt @ post"
      by (simp only: replace_zero append_assoc)
    then show ?thesis
      using that(1) by (simp add: rewrite_key_def)
  qed
  have c4: "replace ''access'' vt None s = s" if "\<not> sublist ''access'' s"
    using that by (rule replace_absent)
  have c5: "replace ''access'' vt None (a @ ''access'' @ b) = a @ vt @ replace ''access'' vt None b"
    if "\<not> sublist ''access'' (a @ ''acces'')"
    using replace_first_occurrence [of "''access''" a None vt b] that by simp
  have c6: "rewrite_key vt ''access'' = vt" if "vt \<noteq> ''(default)''"
    using that by (simp add: rewrite_key_def)
  have c7: "rewrite_key vt key = key"
    if "vt \<noteq> ''(default)''" "\<not> sublist ''maxspeed'' key" "\<not> sublist ''access'' key"
    using that by (simp add: rewrite_key_def replace_absent)
  have i1: "rewrite_key ''hgv'' ''maxspeed'' = ''maxspeed:hgv''" by code_simp
  have i2: "rewrite_key ''hgv'' ''maxspeed:conditional'' = ''maxspeed:hgv:conditional''" by code_simp
  have i3: "rewrite_key ''hgv'' ''maxspeed:maxspeed'' = ''maxspeed:hgv:maxspeed''" by code_simp
  have i4: "rewrite_key ''hgv'' ''access:conditional'' = ''hgv:conditional''" by code_simp
  have i5: "rewrite_key ''hgv'' ''access:access'' = ''hgv:hgv''" by code_simp
  have i6: "rewrite_key ''hgv'' ''maxspeed:access'' = ''maxspeed:hgv:hgv''" by code_simp
  have i7: "rewrite_key ''xaccess'' ''maxspeed'' = ''maxspeed:xxaccess''" by code_simp
  from c1 c2 c3 c4 c5 c6 c7 i1 i2 i3 i4 i5 i6 i7 show ?thesis by blast
qed

theorem rewrite_key_substrings_witness:
  "''hgv'' \<noteq> ''(default)''
   \<and> \<not> sublist ''maxspeed'' ''minspeed'' \<and> \<not> sublist ''access'' ''minspeed''
   \<and> rewrite_key ''hgv'' ''minspeed'' = ''minspeed''
   \<and> \<not> sublist ''maxspeed'' (''zone:'' @ ''maxspee'')
   \<and> rewrite_key ''hgv'' ''zone:maxspeed:access'' = ''zone:maxspeed:hgv:hgv''
   \<and> \<not> sublist ''access'' ('':'' @ ''acces'')
   \<and> replace ''access'' ''hgv'' None '':access:wet'' = '':hgv:wet''
   \<and> \<not> sublist ''access'' '':wet''
   \<and> replace ''access'' ''hgv'' None '':wet'' = '':wet''
   \<and> rewrite_key ''hgv'' ''access'' = ''hgv''"
proof -
  have h1: "''hgv'' \<noteq> ''(default)''" by simp
  have h2: "\<not> sublist ''maxspeed'' ''minspeed''" "\<not> sublist ''access'' ''minspeed''"
    by code_simp+
  have h3: "\<not> sublist ''maxspeed'' (''zone:'' @ ''maxspee'')" by code_simp
  have h4: "\<not> sublist ''access'' ('':'' @ ''acces'')" by code_simp
  have h5: "\<not> sublist ''access'' '':wet''" by code_simp
  have v1: "replace ''access'' ''hgv'' None (''zone:'' @ ''maxspeed:'' @ ''hgv'' @ '':access'')
      = ''zone:maxspeed:hgv:hgv''" by code_simp
  have v2: "replace ''access'' ''hgv'' None '':wet'' = '':wet''" by code_simp
  from rewrite_key_substrings [of "''minspeed''" "''hgv''" "''zone:''" "'':access''" "'':wet''"
      "'':''" "'':wet''"] h1 h2 h3 h4 h5 v1 v2
  show ?thesis by simp
qed

text \<open>
  C3, as the spec states it, fails: the key \<open>access:conditional\<close> is not equal to
  \<open>access\<close> and does not contain \<open>maxspeed\<close>, and it is rewritten all the same.
\<close>

theorem access_inside_key_counterexample:
  "''hgv'' \<noteq> ''(default)'' \<and> ''access:conditional'' \<noteq> ''access''
   \<and> \<not> sublist ''maxspeed'' ''access:conditional''
   \<and> rewrite_key ''hgv'' ''access:conditional'' = ''hgv:conditional''
   \<and> rewrite_key ''hgv'' ''access:conditional'' \<noteq> ''access:conditional''"
  by (simp add: rewrite_key_def sublist_code)

section \<open>The filter placeholder check\<close>

lemma close_brace_found:
  "CHR ''}'' \<notin> set inner \<Longrightarrow> CHR 0x0A \<notin> set inner
    \<Longrightarrow> close_brace (inner @ CHR ''}'' # post) = Some (inner, post)"
  by (induction inner) auto

lemma placeholders_skip: "CHR ''{'' \<notin> set pre \<Longrightarrow> placeholders (pre @ s) = placeholders s"
  by (induction pre) auto

lemma fold_check_placeholder:
  "fold (check_placeholder road_types road_type) ps ws
    = ws @ map (\<lambda>placeholder. road_type @ '': Unable to map '' @ [CHR 0x27] @ placeholder @ [CHR 0x27])
             (filter (\<lambda>placeholder. placeholder \<notin> set (map fst road_types)) ps)"
  by (induction ps arbitrary: ws) (auto simp: check_placeholder_def)

lemma fold_filters:
  "fold (\<lambda>f ws. fold (check_placeholder road_types road_type) (placeholders f) ws) fs ws
    = ws @ concat (map (\<lambda>f. map (\<lambda>placeholder. road_type @ '': Unable to map '' @ [CHR 0x27] @ placeholder @ [CHR 0x27])
             (filter (\<lambda>placeholder. placeholder \<notin> set (map fst road_types)) (placeholders f))) fs)"
  by (induction fs arbitrary: ws) (auto simp: fold_check_placeholder)

lemma fold_road_types:
  "fold (\<lambda>(road_type, filters) ws.
           fold (\<lambda>f ws. fold (check_placeholder road_types road_type) (placeholders f) ws)
             (all_filters filters) ws) rts ws
    = ws @ concat (map (\<lambda>(road_type, filters).
        concat (map (\<lambda>f. map (\<lambda>placeholder. road_type @ '': Unable to map '' @ [CHR 0x27] @ placeholder @ [CHR 0x27])
             (filter (\<lambda>placeholder. placeholder \<notin> set (map fst road_types)) (placeholders f)))
          (all_filters filters))) rts)"
  by (induction rts arbitrary: ws) (auto simp: fold_filters)

lemma close_brace_none:
  "CHR ''}'' \<notin> set (takeWhile (\<lambda>c. c \<noteq> CHR 0x0A) rest) \<Longrightarrow> close_brace rest = None"
  by (induction rest) (auto split: if_splits)

lemma placeholders_no_brace: "CHR ''{'' \<notin> set s \<Longrightarrow> placeholders s = []"
  by (induction s) auto

lemma all_filters_keys:
  "all_filters filters
    = List.map_filter (map_of filters) [''filter'', ''fuzzyFilter'', ''relationFilter'']"
  by (simp add: all_filters_def map_filter_simps split: option.splits)

text \<open>
  C9. The warnings of \<open>validate_road_types\<close> are, for every road type in order and for
  each of the keys \<open>filter\<close>, \<open>fuzzyFilter\<close> and \<open>relationFilter\<close> that the definition has,
  in this order, one warning \<open><road-type>: Unable to map '<placeholder>'\<close> for each
  brace-delimited token of the expression whose inner text is not a key of the
  road-type mapping, and nothing else. The tokens of an expression are found from the
  left: text without an opening brace has none; an opening brace with a closing brace
  after it on the same line starts a token that ends at the first closing brace, and
  the search goes on behind it; an opening brace without one is passed over and the
  search goes on with the next character. The road type \<open>trunk\<close> with the filter
  \<open>highway={primary}\<close> and no definition of \<open>primary\<close> gives exactly one warning. The call
  leaves the store that holds the mapping as it was.
\<close>

theorem validate_road_types_warnings:
  "validate_road_types road_types
     = concat (map (\<lambda>(road_type, filters).
         concat (map (\<lambda>f. map (\<lambda>placeholder. road_type @ '': Unable to map '' @ [CHR 0x27] @ placeholder @ [CHR 0x27])
             (filter (\<lambda>placeholder. placeholder \<notin> set (map fst road_types)) (placeholders f)))
           (List.map_filter (map_of filters) [''filter'', ''fuzzyFilter'', ''relationFilter''])))
         road_types)
   \<and> (CHR ''{'' \<notin> set s \<longrightarrow> placeholders s = [])
   \<and> (CHR ''{'' \<notin> set pre \<and> CHR ''}'' \<notin> set inner \<and> CHR 0x0A \<notin> set inner
        \<longrightarrow> placeholders (pre @ ''{'' @ inner @ ''}'' @ post) = inner # placeholders post)
   \<and> (CHR ''{'' \<notin> set pre' \<and> CHR ''}'' \<notin> set (takeWhile (\<lambda>c. c \<noteq> CHR 0x0A) rest)
        \<longrightarrow> placeholders (pre' @ ''{'' @ rest) = placeholders rest)
   \<and> validate_road_types [(''trunk'', [(''filter'', ''highway={primary}'')])]
       = [''trunk: Unable to map '' @ [CHR 0x27] @ ''primary'' @ [CHR 0x27]]
   \<and> validate_road_types three_filters
       = [''trunk: Unable to map '' @ [CHR 0x27] @ ''primary'' @ [CHR 0x27],
          ''trunk: Unable to map '' @ [CHR 0x27] @ ''rural road'' @ [CHR 0x27],
          ''trunk: Unable to map '' @ [CHR 0x27] @ ''a{b'' @ [CHR 0x27]]
   \<and> fst (validate_road_types_at r h) = validate_road_types (h r)
   \<and> snd (validate_road_types_at r h) = h"
proof -
  have "validate_road_types road_types
     = concat (map (\<lambda>(road_type, filters).
         concat (map (\<lambda>f. map (\<lambda>placeholder. road_type @ '': Unable to map '' @ [CHR 0x27] @ placeholder @ [CHR 0x27])
             (filter (\<lambda>placeholder. placeholder \<notin> set (map fst road_types)) (placeholders f)))
           (all_filters filters)))
         road_types)"
    unfolding validate_road_types_def by (simp add: fold_road_types)
  then have general: "validate_road_types road_types
     = concat (map (\<lambda>(road_type, filters).
         concat (map (\<lambda>f. map (\<lambda>placeholder. road_type @ '': Unable to map '' @ [CHR 0x27] @ placeholder @ [CHR 0x27])
             (filter (\<lambda>placeholder. placeholder \<notin> set (map fst road_types)) (placeholders f)))
           (List.map_filter (map_of filters) [''filter'', ''fuzzyFilter'', ''relationFilter''])))
         road_types)"
    unfolding all_filters_keys .
  have none: "placeholders s = []" if "CHR ''{'' \<notin> set s"
    using that by (rule placeholders_no_brace)
  have token: "placeholders (pre @ ''{'' @ inner @ ''}'' @ post) = inner # placeholders post"
    if "CHR ''{'' \<notin> set pre" "CHR ''}'' \<notin> set inner" "CHR 0x0A \<notin> set inner"
    using that by (simp add: placeholders_skip close_brace_found)
  have unclosed: "placeholders (pre' @ ''{'' @ rest) = placeholders rest"
    if "CHR ''{'' \<notin> set pre'" "CHR ''}'' \<notin> set (takeWhile (\<lambda>c. c \<noteq> CHR 0x0A) rest)"
    using that by (simp add: placeholders_skip close_brace_none)
  have trunk: "validate_road_types [(''trunk'', [(''filter'', ''highway={primary}'')])]
       = [''trunk: Unable to map '' @ [CHR 0x27] @ ''primary'' @ [CHR 0x27]]"
    by code_simp
  have three: "validate_road_types three_filters
       = [''trunk: Unable to map '' @ [CHR 0x27] @ ''primary'' @ [CHR 0x27],
          ''trunk: Unable to map '' @ [CHR 0x27] @ ''rural road'' @ [CHR 0x27],
          ''trunk: Unable to map '' @ [CHR 0x27] @ ''a{b'' @ [CHR 0x27]]"
    by code_simp
  have store: "fst (validate_road_types_at r h) = validate_road_types (h r)"
    "snd (validate_road_types_at r h) = h"
    by (simp_all add: validate_road_types_at_def)
  from general none token unclosed trunk three store show ?thesis by blast
qed

theorem validate_road_types_warnings_witness:
  "CHR ''{'' \<notin> set ''highway''
   \<and> placeholders ''highway'' = []
   \<and> CHR ''{'' \<notin> set ''highway='' \<and> CHR ''}'' \<notin> set ''primary'' \<and> CHR 0x0A \<notin> set ''primary''
   \<and> placeholders ''highway={primary} {motorway}'' = [''primary'', ''motorway'']
   \<and> CHR ''{'' \<notin> set ''route=''
   \<and> CHR ''}'' \<notin> set (takeWhile (\<lambda>c. c \<noteq> CHR 0x0A) (''bus'' @ [CHR 0x0A] @ ''} and {a{b}''))
   \<and> placeholders (''route={bus'' @ [CHR 0x0A] @ ''} and {a{b}'') = [''a{b'']"
proof -
  have h1: "CHR ''{'' \<notin> set ''highway''" by simp
  have h2: "CHR ''{'' \<notin> set ''highway=''" "CHR ''}'' \<notin> set ''primary''" "CHR 0x0A \<notin> set ''primary''"
    by simp_all
  have h3: "CHR ''{'' \<notin> set ''route=''" by simp
  have h4: "CHR ''}'' \<notin> set (takeWhile (\<lambda>c. c \<noteq> CHR 0x0A) (''bus'' @ [CHR 0x0A] @ ''} and {a{b}''))"
    by simp
  have v1: "placeholders '' {motorway}'' = [''motorway'']" by code_simp
  have v2: "placeholders (''bus'' @ [CHR 0x0A] @ ''} and {a{b}'') = [''a{b'']" by code_simp
  from validate_road_types_warnings [of "[]" "''highway''" "''highway=''" "''primary''"
      "'' {motorway}''" "''route=''" "''bus'' @ [CHR 0x0A] @ ''} and {a{b}''"]
    h1 h2 h3 h4 v1 v2
  show ?thesis by simp
qed

section \<open>Header rows of the Speed Table Extractor\<close>

lemma for_each_append: "for_each body (xs @ ys) s = bind (for_each body xs s) (for_each body ys)"
  by (induction xs arbitrary: s) (auto simp: bind_def split: sum.splits)

lemma assign_names_in_range:
  "i + n \<le> length cn
    \<Longrightarrow> for_each (assign_name i t) [0..<n] cn = Inr (take i cn @ replicate n t @ drop (i + n) cn)"
proof (induction n)
  case 0
  then show ?case by simp
next
  case (Suc n)
  let ?mid = "take i cn @ replicate n t @ drop (i + n) cn"
  from Suc.prems have len: "length ?mid = length cn" and lt: "i + n < length cn" by auto
  have "?mid[i + n := t] = take i cn @ replicate (Suc n) t @ drop (i + Suc n) cn"
    using lt by (simp add: list_update_append replicate_append_same upd_conv_take_nth_drop)
  then show ?case
    using Suc len lt by (simp add: for_each_append assign_name_def)
qed

lemma revise_header_writes:
  assumes "get_text [] th \<noteq> []" and "int_attr th ''colspan'' = Inr k" and "i + nat k \<le> length cn"
  shows "revise_header (i, th) cn
    = Inr (take i cn @ replicate (nat k) (get_text [] th) @ drop (i + nat k) cn)"
  using assms by (simp add: revise_header_def assign_names_in_range)

lemma assign_names_length:
  "for_each (assign_name i t) js cn = Inr cn' \<Longrightarrow> length cn' = length cn"
  by (induction js arbitrary: cn) (auto simp: assign_name_def bind_def split: if_splits sum.splits)

lemma revise_header_length: "revise_header ith cn = Inr cn' \<Longrightarrow> length cn' = length cn"
  by (cases ith)
    (auto simp: revise_header_def Let_def bind_def assign_names_length split: if_splits sum.splits)

lemma revise_headers_length:
  "for_each revise_header iths cn = Inr cn' \<Longrightarrow> length cn' = length cn"
proof (induction iths arbitrary: cn)
  case Nil
  then show ?case by simp
next
  case (Cons ith iths)
  then show ?case
    by (cases "revise_header ith cn") (auto dest: revise_header_length)
qed

lemma enumerate_split:
  "i < length xs \<Longrightarrow>
    enumerate n xs = enumerate n (take i xs) @ (n + i, xs ! i) # enumerate (Suc (n + i)) (drop (Suc i) xs)"
proof -
  assume lt: "i < length xs"
  then have "xs = take i xs @ xs ! i # drop (Suc i) xs" by (simp add: id_take_nth_drop)
  then have "enumerate n xs = enumerate n (take i xs @ xs ! i # drop (Suc i) xs)" by simp
  also have "\<dots> = enumerate n (take i xs) @ (n + i, xs ! i) # enumerate (Suc (n + i)) (drop (Suc i) xs)"
    using lt by (simp add: enumerate_append_eq min_def)
  finally show ?thesis .
qed

text \<open>
  C10. In a header row that is processed when column names exist already, let the
  cell at position \<open>i\<close> among the \<open>th\<close> tags of the row have non-empty text and colspan
  \<open>k\<close>, with \<open>i + k\<close> within the list of names. Whatever the cells before it did (their
  colspans included), the cell overwrites exactly the entries \<open>i\<close> to \<open>i + k - 1\<close> of the
  column names, and the row goes on with the cells after it. The grid cache is no
  argument of the header pass, so vertical spans do not move the position either.
\<close>

theorem header_revision_at_ordinal:
  assumes "cn \<noteq> []"
    and "i < length ths"
    and "get_text [] (ths ! i) \<noteq> []"
    and "int_attr (ths ! i) ''colspan'' = Inr k"
    and "for_each revise_header (enumerate 0 (take i ths)) cn = Inr cn1"
    and "i + nat k \<le> length cn"
  shows "revise_header (i, ths ! i) cn1
      = Inr (take i cn1 @ replicate (nat k) (get_text [] (ths ! i)) @ drop (i + nat k) cn1)
    \<and> header_row ths cn
      = for_each revise_header (enumerate (Suc i) (drop (Suc i) ths))
          (take i cn1 @ replicate (nat k) (get_text [] (ths ! i)) @ drop (i + nat k) cn1)"
proof -
  have len: "length cn1 = length cn"
    using assms(5) by (rule revise_headers_length)
  have cell: "revise_header (i, ths ! i) cn1
      = Inr (take i cn1 @ replicate (nat k) (get_text [] (ths ! i)) @ drop (i + nat k) cn1)"
    using assms(3,4,6) len by (simp add: revise_header_writes)
  have "header_row ths cn = for_each revise_header (enumerate 0 ths) cn"
    using assms(1,2) by (auto simp: header_row_def)
  also have "\<dots> = for_each revise_header
      (enumerate 0 (take i ths) @ (i, ths ! i) # enumerate (Suc i) (drop (Suc i) ths)) cn"
    using enumerate_split [OF assms(2), of 0] by simp
  also have "\<dots> = for_each revise_header (enumerate (Suc i) (drop (Suc i) ths))
          (take i cn1 @ replicate (nat k) (get_text [] (ths ! i)) @ drop (i + nat k) cn1)"
    using assms(5) cell by (simp add: for_each_append)
  finally show ?thesis using cell by simp
qed

lemma get_text_th_cell: "get_text [] (th_cell a ''P'') = ''P''" "get_text [] (th_cell a ''X'') = ''X''"
  by (simp_all add: get_text_def th_cell_def strip_def isspace_def)

theorem header_revision_at_ordinal_witness:
  "[''A'', ''B'', ''C'', ''D''] \<noteq> []
   \<and> 1 < length [th_cell [(''colspan'', ''2'')] ''P'', th_cell [] ''X'']
   \<and> get_text [] ([th_cell [(''colspan'', ''2'')] ''P'', th_cell [] ''X''] ! 1) \<noteq> []
   \<and> int_attr ([th_cell [(''colspan'', ''2'')] ''P'', th_cell [] ''X''] ! 1) ''colspan'' = Inr 1
   \<and> for_each revise_header (enumerate 0 (take 1 [th_cell [(''colspan'', ''2'')] ''P'', th_cell [] ''X'']))
        [''A'', ''B'', ''C'', ''D''] = Inr [''P'', ''P'', ''C'', ''D'']
   \<and> 1 + nat 1 \<le> length [''A'', ''B'', ''C'', ''D'']
   \<and> header_row [th_cell [(''colspan'', ''2'')] ''P'', th_cell [] ''X''] [''A'', ''B'', ''C'', ''D'']
       = Inr [''P'', ''X'', ''C'', ''D'']"
proof -
  have colspan2: "int_attr (th_cell [(''colspan'', ''2'')] ''P'') ''colspan'' = Inr 2"
    by (simp add: int_attr_def th_cell_def py_int_def int_space_def is_digit_def)
  have colspan1: "int_attr (th_cell [] ''X'') ''colspan'' = Inr 1"
    by (simp add: int_attr_def th_cell_def)
  have first: "for_each revise_header (enumerate 0 (take 1 [th_cell [(''colspan'', ''2'')] ''P'', th_cell [] ''X'']))
        [''A'', ''B'', ''C'', ''D''] = Inr [''P'', ''P'', ''C'', ''D'']"
    using colspan2
    by (simp add: revise_header_def Let_def get_text_th_cell assign_name_def numeral_2_eq_2)
  show ?thesis
    using header_revision_at_ordinal [of "[''A'', ''B'', ''C'', ''D'']" 1
        "[th_cell [(''colspan'', ''2'')] ''P'', th_cell [] ''X'']" 1 "[''P'', ''P'', ''C'', ''D'']"]
      first colspan1
    by (simp add: get_text_th_cell)
qed

section \<open>Rows of the Speed Table Extractor\<close>

text \<open>
  C1. The spec says that a failure of the speed-parsing function on a non-empty cell
  becomes an empty tag set and a warning, and that the row is still recorded. The code
  does not get that far: on the table \<open>failing_table\<close>, where the parser fails on the
  cell \<open>fast\<close> of the row for Brunei, the handler raises NameError and the whole
  extraction ends with that exception; no warning and no entry are produced.
\<close>

theorem parse_failure_raises_name_error:
  "fst (parse_speed_table one_country 0 failing_parser (table_store failing_table))
    = Inl (NameError ''country_and_subdivision_name'')"
  by code_simp

text \<open>
  C5. A data row (its header cells and its grid update having gone through) whose
  jurisdiction name, the text of the cell in column 0, gets no code: the row appends
  exactly one warning \<open><name>: Unknown country / subdivision\<close> and leaves the result
  mapping as it was. Only the column names and the grid cache of the row are kept.
\<close>

theorem unknown_country_row_skipped:
  assumes "header_row (find_all (named ''th'') row) (column_names s) = Inr cn"
    and "set_tds (td_cache s) (find_all (named ''td'') row) = Inr cache"
    and "find_all (named ''td'') row \<noteq> []"
    and "get_td cache 0 = Inr td0"
    and "falsy (get_country_code reference (get_text [] td0))"
  shows "speed_row reference speed_parse_func row s
    = Inr (s\<lparr>column_names := cn, td_cache := cache,
            warnings := warnings s @ [get_text [] td0 @ '': Unknown country / subdivision'']\<rparr>)"
  using assms by (simp add: speed_row_def Let_def)

lemma unknown_row_tds:
  "find_all (named ''td'') unknown_row
    = [td_cell [] ''Unknownland'', td_cell [] ''motorway'', td_cell [] ''50'']"
  by code_simp

lemma unknown_row_ths: "find_all (named ''th'') unknown_row = []"
  by code_simp

lemma unknown_row_cache:
  "set_tds [] [td_cell [] ''Unknownland'', td_cell [] ''motorway'', td_cell [] ''50'']
    = Inr [(0, 1, td_cell [] ''Unknownland''), (1, 1, td_cell [] ''motorway''), (2, 1, td_cell [] ''50'')]"
  by code_simp

lemma unknown_row_code: "get_country_code one_country ''Unknownland'' = None"
  by code_simp

theorem unknown_country_row_skipped_witness:
  "speed_row one_country failing_parser unknown_row some_state
    = Inr \<lparr>column_names = [''Country'', ''Road type'', ''(default)''],
        result = [(''BN'', [\<lparr>tags = [(''maxspeed'', ''50'')], name = None\<rparr>])],
        warnings = [''earlier warning'', ''Unknownland: Unknown country / subdivision''],
        td_cache = [(0, 1, td_cell [] ''Unknownland''), (1, 1, td_cell [] ''motorway''),
                    (2, 1, td_cell [] ''50'')]\<rparr>"
proof -
  have country_text: "get_text [] (td_cell [] ''Unknownland'') = ''Unknownland''"
    by code_simp
  show ?thesis
    using unknown_country_row_skipped [of unknown_row some_state
        "[''Country'', ''Road type'', ''(default)'']"
        "[(0, 1, td_cell [] ''Unknownland''), (1, 1, td_cell [] ''motorway''), (2, 1, td_cell [] ''50'')]"
        "td_cell [] ''Unknownland''" one_country failing_parser]
    by (simp add: unknown_row_tds unknown_row_ths unknown_row_cache unknown_row_code country_text
        header_row_def some_state_def get_td_def falsy_def)
qed

section \<open>The Decoration Stripper\<close>

lemma is_uninteresting_decompose_all:
  "is_uninteresting (decompose_all p t) = is_uninteresting t"
  by (cases t) auto

lemma no_junk_descendants:
  "d \<in> set (descendants (decompose_all is_uninteresting t)) \<Longrightarrow> \<not> is_uninteresting d"
proof (induction t arbitrary: d)
  case (Tag n a cs)
  from Tag.prems obtain c where c: "c \<in> set cs" "\<not> is_uninteresting c"
    and d: "d = decompose_all is_uninteresting c
        \<or> d \<in> set (descendants (decompose_all is_uninteresting c))"
    by auto
  from d show ?case
  proof
    assume "d = decompose_all is_uninteresting c"
    then show ?thesis using c(2) by (simp add: is_uninteresting_decompose_all)
  next
    assume "d \<in> set (descendants (decompose_all is_uninteresting c))"
    then show ?thesis using Tag.IH [OF c(1)] by blast
  qed
next
  case (NavigableString s)
  then show ?case by simp
next
  case (Comment s)
  then show ?case by simp
qed

lemma find_all_decompose_all:
  "find_all is_uninteresting (decompose_all is_uninteresting t) = []"
  by (auto simp: find_all_def filter_empty_conv dest: no_junk_descendants)

text \<open>
  C8, amended. Both extractors remove every descendant element named \<open>sup\<close> or \<open>img\<close>
  from the table object they are given, in place: no copy is made. After either
  extractor has run, also when it ends with an exception, the caller's table is the
  table without these elements, and every other object of the store is as before.
\<close>

theorem decoration_removed_in_place:
  "snd (parse_road_types_table table h) = h(table := decompose_all is_uninteresting (h table))
   \<and> snd (parse_speed_table reference table speed_parse_func h)
       = h(table := decompose_all is_uninteresting (h table))
   \<and> find_all is_uninteresting (snd (parse_road_types_table table h) table) = []
   \<and> find_all is_uninteresting (snd (parse_speed_table reference table speed_parse_func h) table) = []"
  by (simp add: parse_road_types_table_def parse_speed_table_def Let_def find_all_decompose_all)

text \<open>
  C8, as the spec states it, fails: the table that the caller passes in has a \<open>sup\<close> and
  an \<open>img\<close> element before the call and none after it.
\<close>

theorem callers_table_stripped_counterexample:
  "find_all is_uninteresting (table_store footnote_table 0)
     = [Tag ''sup'' [] [NavigableString ''1''], Tag ''img'' [(''src'', ''sign.png'')] []]
   \<and> find_all is_uninteresting (snd (parse_road_types_table 0 (table_store footnote_table)) 0) = []
   \<and> find_all is_uninteresting
        (snd (parse_speed_table one_country 0 failing_parser (table_store footnote_table)) 0) = []"
  by code_simp

section \<open>The Grid Resolver\<close>

lemma expire_keeps:
  "map_of c col = Some (r, v) \<Longrightarrow> r \<noteq> 1 \<Longrightarrow> map_of (expire c) col = Some (r - 1, v)"
  by (induction c rule: expire.induct) (auto split: if_splits)

lemma keys_expire: "fst ` set (expire c) \<subseteq> fst ` set c"
  by (induction c rule: expire.induct) auto

lemma distinct_expire: "distinct (map fst c) \<Longrightarrow> distinct (map fst (expire c))"
proof (induction c rule: expire.induct)
  case 1
  then show ?case by simp
next
  case (2 k remaining v es)
  then show ?case using keys_expire [of es] by auto
qed

lemma expire_evicts:
  "distinct (map fst c) \<Longrightarrow> map_of c col = Some (1, v) \<Longrightarrow> map_of (expire c) col = None"
proof (induction c rule: expire.induct)
  case 1
  then show ?case by simp
next
  case (2 k remaining v' es)
  show ?case
  proof (cases "k = col")
    case True
    with 2 have "col \<notin> fst ` set es" and "remaining = 1" by auto
    then have "col \<notin> fst ` set (expire es)" using keys_expire [of es] by blast
    then have "map_of (expire es) col = None" by (simp add: map_of_eq_None_iff)
    with True \<open>remaining = 1\<close> show ?thesis by simp
  next
    case False
    with 2 show ?thesis by auto
  qed
qed

lemma skip_cols_free: "skip_cols cache i \<notin> fst ` set cache"
proof (induction cache i rule: skip_cols.induct)
  case (1 cache col_idx)
  then show ?case by (subst skip_cols.simps) auto
qed

lemma skip_cols_ge: "i \<le> skip_cols cache i"
proof (induction cache i rule: skip_cols.induct)
  case (1 cache col_idx)
  show ?case
  proof (cases "col_idx \<in> set (map fst cache)")
    case True
    from "1" [OF True] have "col_idx + 1 \<le> skip_cols cache (col_idx + 1)" .
    moreover have "skip_cols cache col_idx = skip_cols cache (col_idx + 1)"
      using True by (subst skip_cols.simps) simp
    ultimately show ?thesis by simp
  next
    case False
    then show ?thesis by (subst skip_cols.simps) simp
  qed
qed

lemma fill_cols_snd: "snd (fill_cols n e (cache, j)) = j + n"
  by (induction n arbitrary: cache j) auto

lemma fill_cols_map_of:
  "map_of (fst (fill_cols n e (cache, j))) col
    = (if j \<le> col \<and> col < j + n then Some e else map_of cache col)"
  by (induction n arbitrary: cache j) (auto simp: update_conv')

lemma fill_cols_distinct:
  "distinct (map fst cache) \<Longrightarrow> distinct (map fst (fst (fill_cols n e (cache, j))))"
  by (induction n arbitrary: cache j) (auto simp: distinct_update)

lemma insert_tds_append:
  "insert_tds (xs @ ys) s = bind (insert_tds xs s) (insert_tds ys)"
proof (induction xs arbitrary: s)
  case Nil
  then show ?case by simp
next
  case (Cons x xs)
  obtain cache i where s: "s = (cache, i)" by (cases s)
  show ?case unfolding s by (simp add: Cons.IH split: sum.splits)
qed

lemma insert_tds_below:
  "insert_tds tds (cache, i) = Inr (cache', i') \<Longrightarrow> col < i \<Longrightarrow> map_of cache' col = map_of cache col"
proof (induction tds arbitrary: cache i)
  case Nil
  then show ?case by simp
next
  case (Cons td tds)
  from Cons.prems(1) obtain rowspan colspan where
    step: "insert_tds tds (fill_cols (nat colspan) (rowspan, td) (cache, skip_cols cache i)) = Inr (cache', i')"
    by (auto split: sum.splits)
  let ?j = "skip_cols cache i"
  obtain cb ib where fill: "fill_cols (nat colspan) (rowspan, td) (cache, ?j) = (cb, ib)"
    by (cases "fill_cols (nat colspan) (rowspan, td) (cache, ?j)")
  have ib: "ib = ?j + nat colspan" using fill_cols_snd [of "nat colspan" "(rowspan, td)" cache ?j] fill by simp
  have lt: "col < ?j" using Cons.prems(2) skip_cols_ge [of i cache] by simp
  have "map_of cb col = map_of cache col"
    using fill_cols_map_of [of "nat colspan" "(rowspan, td)" cache ?j col] fill lt by simp
  moreover have "map_of cache' col = map_of cb col"
    using Cons.IH [of cb ib] step fill lt ib by simp
  ultimately show ?case by simp
qed

lemma insert_tds_fits:
  "fits tds (cache, i) \<Longrightarrow> insert_tds tds (cache, i) = Inr (cache', i')
    \<Longrightarrow> col \<in> fst ` set cache \<Longrightarrow> map_of cache' col = map_of cache col"
proof (induction tds arbitrary: cache i)
  case Nil
  then show ?case by simp
next
  case (Cons td tds)
  from Cons.prems(2) obtain rowspan colspan where
    rowspan: "int_attr td ''rowspan'' = Inr rowspan"
    and colspan: "int_attr td ''colspan'' = Inr colspan"
    and step: "insert_tds tds (fill_cols (nat colspan) (rowspan, td) (cache, skip_cols cache i)) = Inr (cache', i')"
    by (auto split: sum.splits)
  let ?j = "skip_cols cache i"
  from Cons.prems(1) rowspan colspan
  have free: "list_all (\<lambda>c. c \<notin> set (map fst cache)) [?j..<?j + nat colspan]"
    and rest: "fits tds (fill_cols (nat colspan) (rowspan, td) (cache, ?j))"
    by simp_all
  obtain cb ib where fill: "fill_cols (nat colspan) (rowspan, td) (cache, ?j) = (cb, ib)"
    by (cases "fill_cols (nat colspan) (rowspan, td) (cache, ?j)")
  have outside: "\<not> (?j \<le> col \<and> col < ?j + nat colspan)"
    using Cons.prems(3) free by (auto simp: list_all_iff)
  have same: "map_of cb col = map_of cache col"
    using fill_cols_map_of [of "nat colspan" "(rowspan, td)" cache ?j col] fill outside by auto
  have "col \<in> fst ` set cb"
  proof -
    from Cons.prems(3) have "map_of cache col \<noteq> None" by (simp add: map_of_eq_None_iff)
    with same have "map_of cb col \<noteq> None" by simp
    then show ?thesis by (simp add: map_of_eq_None_iff)
  qed
  then have "map_of cache' col = map_of cb col"
    using Cons.IH [of cb ib] rest step fill by simp
  with same show ?case by simp
qed

lemma insert_tds_distinct:
  "insert_tds tds (cache, i) = Inr (cache', i') \<Longrightarrow> distinct (map fst cache)
    \<Longrightarrow> distinct (map fst cache')"
proof (induction tds arbitrary: cache i)
  case Nil
  then show ?case by simp
next
  case (Cons td tds)
  from Cons.prems(1) obtain rowspan colspan where
    step: "insert_tds tds (fill_cols (nat colspan) (rowspan, td) (cache, skip_cols cache i)) = Inr (cache', i')"
    by (auto split: sum.splits)
  obtain cb ib where fill: "fill_cols (nat colspan) (rowspan, td) (cache, skip_cols cache i) = (cb, ib)"
    by (cases "fill_cols (nat colspan) (rowspan, td) (cache, skip_cols cache i)")
  have "distinct (map fst cb)"
    using fill_cols_distinct [OF Cons.prems(2), of "nat colspan" "(rowspan, td)" "skip_cols cache i"] fill
    by simp
  then show ?case using Cons.IH [of cb ib] step fill by simp
qed

lemma set_tds_Inr:
  "set_tds cache tds = Inr c \<Longrightarrow> \<exists>i. insert_tds tds (expire cache, 0) = Inr (c, i)"
  by (auto simp: set_tds_def split: sum.splits)

lemma set_tds_distinct:
  "set_tds cache tds = Inr c \<Longrightarrow> distinct (map fst cache) \<Longrightarrow> distinct (map fst c)"
  using insert_tds_distinct distinct_expire set_tds_Inr by blast

lemma set_rows_distinct:
  "set_rows c0 rows = Inr c \<Longrightarrow> distinct (map fst c0) \<Longrightarrow> distinct (map fst c)"
proof (induction rows arbitrary: c0)
  case Nil
  then show ?case by (simp add: set_rows_def)
next
  case (Cons tds rows)
  from Cons.prems(1) obtain c1 where c1: "set_tds c0 tds = Inr c1" and rest: "set_rows c1 rows = Inr c"
    by (cases "set_tds c0 tds") (auto simp: set_rows_def)
  from set_tds_distinct [OF c1 Cons.prems(2)] Cons.IH [OF rest] show ?case by blast
qed

lemma entry_persists:
  "map_of c0 col = Some (N, v) \<Longrightarrow> rows_fit c0 rows
    \<Longrightarrow> set_rows c0 rows = Inr c \<Longrightarrow> int (length rows) < N
    \<Longrightarrow> map_of c col = Some (N - int (length rows), v)"
proof (induction rows arbitrary: c0 N)
  case Nil
  then show ?case by (simp add: set_rows_def)
next
  case (Cons tds rows)
  from Cons.prems(3) obtain c1 where c1: "set_tds c0 tds = Inr c1" and rest: "set_rows c1 rows = Inr c"
    by (cases "set_tds c0 tds") (auto simp: set_rows_def)
  from Cons.prems(4) have N: "N \<noteq> 1" and less: "int (length rows) < N - 1" by auto
  have kept: "map_of (expire c0) col = Some (N - 1, v)"
    using expire_keeps [OF Cons.prems(1) N] .
  then have "col \<in> fst ` set (expire c0)"
    by (metis map_of_eq_None_iff option.distinct(1))
  moreover from set_tds_Inr [OF c1] obtain i where "insert_tds tds (expire c0, 0) = Inr (c1, i)" ..
  moreover from Cons.prems(2) have "fits tds (expire c0, 0)" by simp
  ultimately have "map_of c1 col = map_of (expire c0) col"
    using insert_tds_fits [of tds "expire c0" 0 c1 i col] by simp
  with kept have placed: "map_of c1 col = Some (N - 1, v)" by simp
  from Cons.prems(2) c1 have "rows_fit c1 rows" by simp
  from Cons.IH [OF placed this rest less]
  have "map_of c col = Some (N - 1 - int (length rows), v)" .
  then show ?case by simp
qed

lemma cell_placed:
  assumes "insert_tds pre (expire cache, 0) = Inr (ca, ia)"
    and "int_attr td ''rowspan'' = Inr N"
    and "int_attr td ''colspan'' = Inr k"
    and "j < nat k"
    and "set_tds cache (pre @ td # post) = Inr c0"
  shows "map_of c0 (skip_cols ca ia + j) = Some (N, td)"
proof -
  let ?col = "skip_cols ca ia"
  from set_tds_Inr [OF assms(5)] obtain i0
    where "insert_tds (pre @ td # post) (expire cache, 0) = Inr (c0, i0)" ..
  then have "insert_tds (td # post) (ca, ia) = Inr (c0, i0)"
    using assms(1) by (simp add: insert_tds_append)
  then have step: "insert_tds post (fill_cols (nat k) (N, td) (ca, ?col)) = Inr (c0, i0)"
    using assms(2,3) by simp
  obtain cb ib where fill: "fill_cols (nat k) (N, td) (ca, ?col) = (cb, ib)"
    by (cases "fill_cols (nat k) (N, td) (ca, ?col)")
  have ib: "ib = ?col + nat k" using fill_cols_snd [of "nat k" "(N, td)" ca ?col] fill by simp
  have "map_of cb (?col + j) = Some (N, td)"
    using fill_cols_map_of [of "nat k" "(N, td)" ca ?col "?col + j"] fill assms(4) by simp
  moreover have "map_of c0 (?col + j) = map_of cb (?col + j)"
    using insert_tds_below [of post cb ib c0 i0 "?col + j"] step fill ib assms(4) by simp
  ultimately show ?thesis by simp
qed

text \<open>
  C2, amended. Let a cell with rowspan \<open>N\<close> (at least 1) and colspan \<open>k\<close> be placed by
  \<open>set_tds\<close>; its columns are the \<open>k\<close> columns from the first free column at or after the
  cursor that the cells to its left have reached. If no cell of the following rows is
  laid over a column that the cache still holds, then after each of the first \<open>N - 1\<close>
  following rows \<open>get\<close> at each of these columns still returns the cell, which makes \<open>N\<close>
  consecutive rows with the row that introduced it, and the decrement-and-evict pass of
  the row after these removes the entry, before the cells of that row are inserted.
\<close>

theorem row_span_covers_rows:
  assumes "distinct (map fst cache)"
    and "insert_tds pre (expire cache, 0) = Inr (ca, ia)"
    and "int_attr td ''rowspan'' = Inr N" and "1 \<le> N"
    and "int_attr td ''colspan'' = Inr k" and "j < nat k"
    and "set_tds cache (pre @ td # post) = Inr c0"
    and "rows_fit c0 rows"
    and "set_rows c0 rows = Inr c"
  shows "(int (length rows) < N \<longrightarrow> get_td c (skip_cols ca ia + j) = Inr td)
    \<and> (int (length rows) = N - 1 \<longrightarrow> map_of (expire c) (skip_cols ca ia + j) = None)"
proof -
  let ?col = "skip_cols ca ia + j"
  have placed: "map_of c0 ?col = Some (N, td)"
    using cell_placed [OF assms(2,3,5,6,7)] .
  have visible: "map_of c ?col = Some (N - int (length rows), td)" if "int (length rows) < N"
    using entry_persists [OF placed assms(8,9) that] .
  have "distinct (map fst c)"
    using set_rows_distinct [OF assms(9)] set_tds_distinct [OF assms(7,1)] by blast
  then have "map_of (expire c) ?col = None" if "int (length rows) = N - 1"
    using visible that expire_evicts [of c ?col td] by simp
  then show ?thesis using visible by (simp add: get_td_def)
qed

text \<open>
  C6, amended. A cell without a colspan attribute is written to exactly one column, the
  first free column at or after the cursor, and the cursor moves by one. A cell without
  a rowspan attribute is entered with one remaining row: \<open>get\<close> returns it in its own row
  and the decrement-and-evict pass of the next row removes it.
\<close>

theorem missing_span_is_one:
  assumes "distinct (map fst cache)"
    and "insert_tds pre (expire cache, 0) = Inr (ca, ia)"
  shows "(map_of (attrs td) ''colspan'' = None \<and> int_attr td ''rowspan'' = Inr n
      \<longrightarrow> insert_tds (pre @ [td]) (expire cache, 0)
            = Inr (AList.update (skip_cols ca ia) (n, td) ca, skip_cols ca ia + 1))
    \<and> (map_of (attrs td) ''rowspan'' = None \<and> int_attr td ''colspan'' = Inr k \<and> 1 \<le> k
        \<and> set_tds cache (pre @ td # post) = Inr c0
      \<longrightarrow> get_td c0 (skip_cols ca ia) = Inr td \<and> map_of (expire c0) (skip_cols ca ia) = None)"
proof -
  have one_column: "insert_tds (pre @ [td]) (expire cache, 0)
      = Inr (AList.update (skip_cols ca ia) (n, td) ca, skip_cols ca ia + 1)"
    if "map_of (attrs td) ''colspan'' = None" "int_attr td ''rowspan'' = Inr n"
    using that assms(2) by (simp add: insert_tds_append int_attr_def)
  have one_row: "get_td c0 (skip_cols ca ia) = Inr td \<and> map_of (expire c0) (skip_cols ca ia) = None"
    if "map_of (attrs td) ''rowspan'' = None" "int_attr td ''colspan'' = Inr k" "1 \<le> k"
      "set_tds cache (pre @ td # post) = Inr c0"
  proof -
    have rowspan: "int_attr td ''rowspan'' = Inr 1" using that(1) by (simp add: int_attr_def)
    have "0 < nat k" using that(3) by simp
    from cell_placed [OF assms(2) rowspan that(2) this that(4)]
    have placed: "map_of c0 (skip_cols ca ia) = Some (1, td)" by simp
    moreover have "distinct (map fst c0)" using set_tds_distinct [OF that(4) assms(1)] .
    ultimately show ?thesis using expire_evicts [of c0 "skip_cols ca ia" td] by (simp add: get_td_def)
  qed
  from one_column one_row show ?thesis by blast
qed

theorem row_span_covers_rows_witness:
  "get_td [(1, 1, td_cell [(''rowspan'', ''2'')] ''B''), (0, 1, td_cell [] ''D''),
           (2, 1, td_cell [(''colspan'', ''2'')] ''F''), (3, 1, td_cell [(''colspan'', ''2'')] ''F'')]
      (skip_cols [(0, 1, td_cell [] ''A'')] 1 + 0) = Inr (td_cell [(''rowspan'', ''2'')] ''B'')
   \<and> map_of (expire [(1, 1, td_cell [(''rowspan'', ''2'')] ''B''), (0, 1, td_cell [] ''D''),
           (2, 1, td_cell [(''colspan'', ''2'')] ''F''), (3, 1, td_cell [(''colspan'', ''2'')] ''F'')])
      (skip_cols [(0, 1, td_cell [] ''A'')] 1 + 0) = None"
proof -
  let ?A = "td_cell [] ''A''" and ?B = "td_cell [(''rowspan'', ''2'')] ''B''"
    and ?D = "td_cell [] ''D''" and ?F = "td_cell [(''colspan'', ''2'')] ''F''"
  have h1: "distinct (map fst ([] :: td_cache))" by simp
  have h2: "insert_tds [?A] (expire [], 0) = Inr ([(0, 1, ?A)], 1)" by code_simp
  have h3: "int_attr ?B ''rowspan'' = Inr 2" by code_simp
  have h4: "(1::int) \<le> 2" by simp
  have h5: "int_attr ?B ''colspan'' = Inr 1" by code_simp
  have h6: "0 < nat 1" by simp
  have h7: "set_tds [] ([?A] @ ?B # []) = Inr [(0, 1, ?A), (1, 2, ?B)]" by code_simp
  have h8: "rows_fit [(0, 1, ?A), (1, 2, ?B)] [[?D, ?F]]" by code_simp
  have h9: "set_rows [(0, 1, ?A), (1, 2, ?B)] [[?D, ?F]]
      = Inr [(1, 1, ?B), (0, 1, ?D), (2, 1, ?F), (3, 1, ?F)]" by code_simp
  from row_span_covers_rows [OF h1 h2 h3 h4 h5 h6 h7 h8 h9] show ?thesis by simp
qed

text \<open>
  C2, as the spec states it, fails: the insertion pass checks only the first column of a
  cell, so a cell of a later row with colspan 2 is written over a column that a vertical
  span still holds. The cell \<open>B\<close> with rowspan 2 is returned at column 1 for one row only.
\<close>

theorem row_span_overwritten_counterexample:
  "int_attr (td_cell [(''rowspan'', ''2'')] ''B'') ''rowspan'' = Inr 2
   \<and> set_tds [] [td_cell [] ''A'', td_cell [(''rowspan'', ''2'')] ''B'']
       = Inr [(0, 1, td_cell [] ''A''), (1, 2, td_cell [(''rowspan'', ''2'')] ''B'')]
   \<and> get_td [(0, 1, td_cell [] ''A''), (1, 2, td_cell [(''rowspan'', ''2'')] ''B'')] 1
       = Inr (td_cell [(''rowspan'', ''2'')] ''B'')
   \<and> set_tds [(0, 1, td_cell [] ''A''), (1, 2, td_cell [(''rowspan'', ''2'')] ''B'')]
         [td_cell [(''colspan'', ''2'')] ''C'']
       = Inr [(1, 1, td_cell [(''colspan'', ''2'')] ''C''), (0, 1, td_cell [(''colspan'', ''2'')] ''C'')]
   \<and> get_td [(1, 1, td_cell [(''colspan'', ''2'')] ''C''), (0, 1, td_cell [(''colspan'', ''2'')] ''C'')] 1
       = Inr (td_cell [(''colspan'', ''2'')] ''C'')
   \<and> td_cell [(''colspan'', ''2'')] ''C'' \<noteq> td_cell [(''rowspan'', ''2'')] ''B''"
  by code_simp

theorem missing_span_is_one_witness:
  "insert_tds ([td_cell [] ''A''] @ [td_cell [] ''D'']) (expire [], 0)
     = Inr (AList.update (skip_cols [(0, 1, td_cell [] ''A'')] 1) (1, td_cell [] ''D'')
              [(0, 1, td_cell [] ''A'')],
            skip_cols [(0, 1, td_cell [] ''A'')] 1 + 1)
   \<and> get_td [(0, 1, td_cell [] ''A''), (1, 1, td_cell [] ''D'')]
        (skip_cols [(0, 1, td_cell [] ''A'')] 1) = Inr (td_cell [] ''D'')
   \<and> map_of (expire [(0, 1, td_cell [] ''A''), (1, 1, td_cell [] ''D'')])
        (skip_cols [(0, 1, td_cell [] ''A'')] 1) = None"
proof -
  let ?A = "td_cell [] ''A''" and ?D = "td_cell [] ''D''"
  have h1: "distinct (map fst ([] :: td_cache))" by simp
  have h2: "insert_tds [?A] (expire [], 0) = Inr ([(0, 1, ?A)], 1)" by code_simp
  have a1: "map_of (attrs ?D) ''colspan'' = None" by code_simp
  have a2: "int_attr ?D ''rowspan'' = Inr 1" by code_simp
  have b1: "map_of (attrs ?D) ''rowspan'' = None" by code_simp
  have b2: "int_attr ?D ''colspan'' = Inr 1" by code_simp
  have b3: "set_tds [] ([?A] @ ?D # []) = Inr [(0, 1, ?A), (1, 1, ?D)]" by code_simp
  from missing_span_is_one [OF h1 h2, of ?D 1 1 "[]" "[(0, 1, ?A), (1, 1, ?D)]"] a1 a2 b1 b2 b3
  show ?thesis by simp
qed

text \<open>
  C6, as the spec states it, fails for the value 0, which is used as it is written: a
  cell with colspan 0 occupies no column at all, and a cell with rowspan 0 is still in
  the grid on the next row, with \<open>- 1\<close> remaining rows, and is never evicted.
\<close>

theorem zero_span_counterexample:
  "int_attr (td_cell [(''colspan'', ''0'')] ''Y'') ''colspan'' = Inr 0
   \<and> set_tds [] [td_cell [(''colspan'', ''0'')] ''Y''] = Inr []
   \<and> get_td [] 0 = Inl KeyError
   \<and> int_attr (td_cell [(''rowspan'', ''0'')] ''Z'') ''rowspan'' = Inr 0
   \<and> set_tds [] [td_cell [(''rowspan'', ''0'')] ''Z''] = Inr [(0, 0, td_cell [(''rowspan'', ''0'')] ''Z'')]
   \<and> set_tds [(0, 0, td_cell [(''rowspan'', ''0'')] ''Z'')] []
       = Inr [(0, - 1, td_cell [(''rowspan'', ''0'')] ''Z'')]
   \<and> get_td [(0, - 1, td_cell [(''rowspan'', ''0'')] ''Z'')] 0 = Inr (td_cell [(''rowspan'', ''0'')] ''Z'')"
  by code_simp

end
